theory Spec2Isabelle
  imports Complex_Main
begin

section \<open>The JavaScript values the cache works with\<close>

text \<open>
  The package \<^verbatim>\<open>cf-cache\<close> consists of \<^verbatim>\<open>util.ts\<close> (chunking, key derivation and
  the HTTP metadata codec) and of the class \<^verbatim>\<open>CloudflareR2Cache\<close>. Both are embedded
  below, function by function. What the code takes from the JavaScript runtime is modelled
  first: numbers and their decimal text, header collections, dates, URLs.
\<close>

subsection \<open>Numbers: \<^verbatim>\<open>toString\<close> and \<^verbatim>\<open>parseInt\<close>\<close>

text \<open>
  A number is an integer or \<^verbatim>\<open>NaN\<close>: the code only handles HTTP status codes and
  object sizes (both integers far below the range where JavaScript switches to exponent
  notation) and whatever \<^verbatim>\<open>parseInt\<close> returns.
\<close>

datatype js_num = Num int | NaN

definition digit_chars :: string where
  "digit_chars = ''0123456789''"

fun nat_digits :: "nat \<Rightarrow> string" where
  "nat_digits n =
     (if n < 10 then [digit_chars ! n]
      else nat_digits (n div 10) @ [digit_chars ! (n mod 10)])"

declare nat_digits.simps [simp del]

definition Number_toString :: "js_num \<Rightarrow> string" where
  "Number_toString x =
     (case x of
        NaN \<Rightarrow> ''NaN''
      | Num i \<Rightarrow> if i < 0 then CHR ''-'' # nat_digits (nat (- i)) else nat_digits (nat i))"

text \<open>
  \<^verbatim>\<open>parseInt(string)\<close> with no radix, as ECMAScript defines it: leading white space
  is skipped, one sign is read, a prefix \<^verbatim>\<open>0x\<close> selects radix 16, and the longest run
  of digits of the radix is the value; no digit at all gives \<^verbatim>\<open>NaN\<close>. Strings are
  byte strings here, so only the ASCII white space characters are skipped.
\<close>

definition digit_value :: "char \<Rightarrow> nat option" where
  "digit_value c =
     map_of
       (zip ''0123456789abcdefABCDEF''
          [0, 1, 2, 3, 4, 5, 6, 7, 8, 9, 10, 11, 12, 13, 14, 15, 10, 11, 12, 13, 14, 15]) c"

definition is_radix_digit :: "nat \<Rightarrow> char \<Rightarrow> bool" where
  "is_radix_digit R c = (case digit_value c of None \<Rightarrow> False | Some d \<Rightarrow> d < R)"

definition digit_of :: "char \<Rightarrow> nat" where
  "digit_of c = (case digit_value c of None \<Rightarrow> 0 | Some d \<Rightarrow> d)"

definition is_white_space :: "char \<Rightarrow> bool" where
  "is_white_space c =
     (c = CHR '' '' \<or> c = CHR 0x09 \<or> c = CHR 0x0A \<or> c = CHR 0x0B \<or> c = CHR 0x0C \<or> c = CHR 0x0D)"

definition strip_sign :: "string \<Rightarrow> int \<times> string" where
  "strip_sign S =
     (case S of
        [] \<Rightarrow> (1, S)
      | c # r \<Rightarrow> if c = CHR ''-'' then (- 1, r) else if c = CHR ''+'' then (1, r) else (1, S))"

definition strip_prefix :: "string \<Rightarrow> nat \<times> string" where
  "strip_prefix S =
     (if take 2 S = ''0x'' \<or> take 2 S = ''0X'' then (16, drop 2 S) else (10, S))"

definition parseInt :: "string \<Rightarrow> js_num" where
  "parseInt inputString =
     (let (sign, S1) = strip_sign (dropWhile is_white_space inputString);
          (R, S2) = strip_prefix S1;
          Z = takeWhile (is_radix_digit R) S2
      in if Z = [] then NaN
         else Num (sign * int (foldl (\<lambda>a c. a * R + digit_of c) 0 Z)))"

subsection \<open>Headers, dates, URLs and requests\<close>

text \<open>
  What is thrown: the errors of the language and of the platform, the failures of the
  origin store and those of the edge API.
\<close>

datatype js_error =
    Error string | TypeError string | RangeError string | StoreError string | PurgeError string

text \<open>
  A \<^verbatim>\<open>Headers\<close> object maps header names to values and compares names without regard
  to case: it is a map keyed by the lower-cased name. \<^verbatim>\<open>get\<close> returns \<^verbatim>\<open>null\<close>
  (\<open>None\<close>) for a header that is not there. The values it holds are header values: texts
  with no NUL, line feed or carriage return and no white space at either end. \<^verbatim>\<open>set\<close>
  stores a header value as it is, which is what \<open>Headers_set\<close> does; given any other text
  it strips the white space at the ends, or throws. What reaches \<^verbatim>\<open>set\<close> from a
  \<^verbatim>\<open>Headers\<close> object, from the runtime's printing of a date or from the store's quoting
  of a fingerprint is a header value; where the texts of an arbitrary stored object reach
  \<^verbatim>\<open>set\<close>, they are assumed to be header values (\<open>header_value\<close>).
\<close>

type_synonym headers = "string \<rightharpoonup> string"

definition ascii_lower :: "char \<Rightarrow> char" where
  "ascii_lower c =
     (case map_of (zip ''ABCDEFGHIJKLMNOPQRSTUVWXYZ'' ''abcdefghijklmnopqrstuvwxyz'') c of
        None \<Rightarrow> c
      | Some l \<Rightarrow> l)"

definition lower :: "string \<Rightarrow> string" where
  "lower name = map ascii_lower name"

definition Headers_get :: "headers \<Rightarrow> string \<Rightarrow> string option" where
  "Headers_get h name = h (lower name)"

definition Headers_set :: "headers \<Rightarrow> string \<Rightarrow> string \<Rightarrow> headers" where
  "Headers_set h name v = h(lower name \<mapsto> v)"

definition http_white_space :: "char \<Rightarrow> bool" where
  "http_white_space c = (c = CHR 0x09 \<or> c = CHR 0x0A \<or> c = CHR 0x0D \<or> c = CHR '' '')"

definition header_value :: "string \<Rightarrow> bool" where
  "header_value v =
     (list_all (\<lambda>c. c \<noteq> CHR 0x00 \<and> c \<noteq> CHR 0x0A \<and> c \<noteq> CHR 0x0D) v
      \<and> (case v of [] \<Rightarrow> True | c # r \<Rightarrow> \<not> http_white_space c \<and> \<not> http_white_space (last v)))"

text \<open>
  \<^verbatim>\<open>set\<close> given any text, as the Fetch standard defines it: the text is normalised, and
  refused unless it is then a header value. On header values it is \<open>Headers_set\<close>.
\<close>

definition strip_white_space :: "string \<Rightarrow> string" where
  "strip_white_space v = rev (dropWhile http_white_space (rev (dropWhile http_white_space v)))"

definition Headers_set_text :: "headers \<Rightarrow> string \<Rightarrow> string \<Rightarrow> js_error + headers" where
  "Headers_set_text h name v =
     (let v' = strip_white_space v in
      if header_value v' then Inr (Headers_set h name v')
      else Inl (TypeError ''invalid header value''))"

text \<open>
  A \<^verbatim>\<open>Date\<close> holds a time value in milliseconds, or is the invalid date. Parsing a
  date string (\<^verbatim>\<open>new Date(s)\<close>) and printing a date (\<^verbatim>\<open>toUTCString\<close>) belong to the
  runtime; the embedding takes both as parameters.
\<close>

datatype js_date = TimeValue int | InvalidDate

record js_runtime =
  new_Date :: "string \<Rightarrow> js_date"
  toUTCString :: "js_date \<Rightarrow> string"

text \<open>
  The code reads one property of a URL, its \<^verbatim>\<open>pathname\<close>. A \<^verbatim>\<open>Request\<close> holds
  the serialisation of its URL, which \<^verbatim>\<open>new URL(request.url)\<close> parses back: the request
  is modelled as carrying that URL. A \<^verbatim>\<open>RequestInfo\<close> is a request or a string.
\<close>

record url =
  href :: string
  pathname :: string

datatype request_input = RequestObject url | URLObject url | StringInput string

text \<open>Truthiness of an optional string: \<^verbatim>\<open>null\<close>, \<^verbatim>\<open>undefined\<close> and \<^verbatim>\<open>""\<close> are falsy.\<close>

definition truthy :: "string option \<Rightarrow> bool" where
  "truthy v = (case v of None \<Rightarrow> False | Some s \<Rightarrow> s \<noteq> [])"

definition or_undefined :: "string option \<Rightarrow> string option" where
  "or_undefined v = (if truthy v then v else None)"

section \<open>\<^verbatim>\<open>util.ts\<close>\<close>

subsection \<open>\<^verbatim>\<open>chunkArray\<close>\<close>

text \<open>
  \<^verbatim>\<open>arr.length > size ? [arr.slice(0, size), ...chunkArray(arr.slice(size), size)] : [arr]\<close>.
  With \<^verbatim>\<open>size = 0\<close> and a non-empty array the recursion never ends, so the function is
  partial: \<open>None\<close> stands for a call that does not return.
\<close>

partial_function (option) chunkArray :: "'a list \<Rightarrow> nat \<Rightarrow> 'a list list option" where
  "chunkArray arr sz =
     (if length arr > sz
      then Option.bind (chunkArray (drop sz arr) sz) (\<lambda>rest. Some (take sz arr # rest))
      else Some [arr])"

declare chunkArray.simps [code]

subsection \<open>\<^verbatim>\<open>_getKey\<close>\<close>

text \<open>
  \<^verbatim>\<open>_getKey\<close> (named \<open>getKey\<close> here): a request gives its URL's pathname, a URL its
  pathname, anything else (a string, or \<^verbatim>\<open>undefined\<close>) is returned as it is.
\<close>

fun getKey :: "request_input option \<Rightarrow> string option" where
  "getKey (Some (RequestObject u)) = Some (pathname u)"
| "getKey (Some (URLObject u)) = Some (pathname u)"
| "getKey (Some (StringInput s)) = Some s"
| "getKey None = None"

subsection \<open>The HTTP metadata codec\<close>

record http_metadata =
  cacheControl :: "string option"
  cacheExpiry :: "js_date option"
  contentType :: "string option"
  contentDisposition :: "string option"
  contentEncoding :: "string option"
  contentLanguage :: "string option"

definition serializeHTTPMetadata :: "js_runtime \<Rightarrow> headers \<Rightarrow> http_metadata" where
  "serializeHTTPMetadata rt hdrs =
     (let expires = Headers_get hdrs ''expires'' in
      \<lparr> cacheControl = or_undefined (Headers_get hdrs ''cache-control''),
        cacheExpiry =
          (case expires of
             None \<Rightarrow> None
           | Some e \<Rightarrow> if e \<noteq> [] then Some (new_Date rt e) else None),
        contentType = or_undefined (Headers_get hdrs ''content-type''),
        contentDisposition = or_undefined (Headers_get hdrs ''content-disposition''),
        contentEncoding = or_undefined (Headers_get hdrs ''content-encoding''),
        contentLanguage = or_undefined (Headers_get hdrs ''content-language'') \<rparr>)"

text \<open>
  \<^verbatim>\<open>if (v) result.set(name, v)\<close>, the statement \<^verbatim>\<open>parseHTTPMetadata\<close> repeats for
  each string field.
\<close>

definition set_if_truthy :: "headers \<Rightarrow> string \<Rightarrow> string option \<Rightarrow> headers" where
  "set_if_truthy result name v =
     (case v of None \<Rightarrow> result | Some s \<Rightarrow> if s \<noteq> [] then Headers_set result name s else result)"

definition parseHTTPMetadata :: "js_runtime \<Rightarrow> http_metadata option \<Rightarrow> headers" where
  "parseHTTPMetadata rt hdrs =
     (case hdrs of
        None \<Rightarrow> Map.empty
      | Some m \<Rightarrow>
          (let result = Map.empty;
               result = set_if_truthy result ''Cache-Control'' (cacheControl m);
               result =
                 (case cacheExpiry m of
                    None \<Rightarrow> result
                  | Some d \<Rightarrow> Headers_set result ''Expires'' (toUTCString rt d));
               result = set_if_truthy result ''Content-Type'' (contentType m);
               result = set_if_truthy result ''Content-Disposition'' (contentDisposition m);
               result = set_if_truthy result ''Content-Encoding'' (contentEncoding m);
               result = set_if_truthy result ''Content-Language'' (contentLanguage m)
           in result))"

text \<open>The six header names the codec covers, as \<^verbatim>\<open>Headers\<close> stores them.\<close>

definition codec_fields :: "string list" where
  "codec_fields =
     [''cache-control'', ''expires'', ''content-type'', ''content-disposition'',
      ''content-encoding'', ''content-language'']"

section \<open>The services the cache talks to\<close>

text \<open>
  The class holds three handles: an S3 client (listing and batched deletion), an R2 bucket
  binding (single-object get and put) and, optionally, the edge purge endpoint reached
  with \<^verbatim>\<open>fetch\<close>. The bucket behind the R2 binding is a map from keys to stored objects.
  The S3 client and \<^verbatim>\<open>fetch\<close> are remote calls: what they answer is a parameter of the
  embedding, and every call the code makes is recorded, in order, as an event. What a
  batched deletion removes from the bucket is the store's business: the embedding records
  the command and the store's answer.
\<close>

datatype object_identifier = ObjectIdentifier (Key: "string option")

datatype deleted_object = DeletedObject (DeletedKey: "string option")

datatype delete_output = DeleteObjectsOutput (Deleted: "deleted_object list option")

text \<open>One page of a listing: \<^verbatim>\<open>Contents\<close> is optional, and so is each entry's \<^verbatim>\<open>Key\<close>.\<close>

datatype list_page = ListObjectsV2Output (Contents: "object_identifier list option")

datatype purge_body = PurgeEverything bool | PurgeFiles "string list"

record fetch_init =
  init_method :: string
  init_headers :: "(string \<times> string) list"
  init_body :: purge_body

record r2_put_options =
  put_httpMetadata :: http_metadata
  put_customMetadata :: "string \<rightharpoonup> string"

record r2_object =
  r2_key :: string
  r2_size :: nat
  httpEtag :: string
  uploaded :: js_date
  httpMetadata :: "http_metadata option"
  customMetadata :: "(string \<rightharpoonup> string) option"
  r2_body :: "string option"

type_synonym r2_bucket = "string \<rightharpoonup> r2_object"

text \<open>
  A remote call answers after some time. \<open>deleteObjects\<close> gives, for the bucket name and
  the objects of one \<^verbatim>\<open>DeleteObjectsCommand\<close>, the latency of the answer and the answer:
  a failure or the output. \<open>listObjectsV2\<close> gives the pages the paginator yields until it
  is drained, or the failure that ends the iteration. The R2 binding may fail as well:
  \<open>r2_get_fault\<close> is the failure of a \<^verbatim>\<open>get\<close> of a key, if it fails, and \<open>r2_put_answer\<close>
  is the store's answer to a \<^verbatim>\<open>put\<close> of a body under a key: a failure, or the fingerprint
  and the upload time it gives the object.
\<close>

record services =
  listObjectsV2 :: "string \<Rightarrow> string option \<Rightarrow> js_error + list_page list"
  deleteObjects :: "string \<Rightarrow> object_identifier list \<Rightarrow> nat \<times> (js_error + delete_output)"
  fetch :: "string \<Rightarrow> fetch_init \<Rightarrow> js_error + unit"
  r2_get_fault :: "string \<Rightarrow> js_error option"
  r2_put_answer :: "string \<Rightarrow> string \<Rightarrow> js_error + string \<times> js_date"

datatype event =
    S3List string "string option"
  | S3DeleteSent nat "object_identifier list"
  | Settled nat bool
  | Fetch string fetch_init
  | R2Get string
  | R2Put string

subsection \<open>\<^verbatim>\<open>Promise.all\<close>\<close>

text \<open>
  \<^verbatim>\<open>await Promise.all(ps)\<close> over calls that are already under way: the calls settle in
  the order of their latencies (calls with equal latency in the order they were made). The
  join is rejected at the first call that fails, with its error; otherwise it is fulfilled
  once every call has answered, with the answers in the order of the calls. \<open>Settled i ok\<close>
  records that call \<open>i\<close> has answered.
\<close>

fun settle :: "(nat \<times> nat \<times> (js_error + 'a)) list \<Rightarrow> event list \<times> js_error option" where
  "settle [] = ([], None)"
| "settle ((i, t, Inl e) # rest) = ([Settled i False], Some e)"
| "settle ((i, t, Inr v) # rest) = (let (evs, r) = settle rest in (Settled i True # evs, r))"

definition settle_order :: "(nat \<times> 'r) list \<Rightarrow> (nat \<times> nat \<times> 'r) list" where
  "settle_order ps = sort_key (\<lambda>(i, t, r). t) (enumerate 0 ps)"

definition fulfilled :: "(nat \<times> (js_error + 'a)) list \<Rightarrow> 'a list" where
  "fulfilled ps = List.map_filter (\<lambda>(t, r). case r of Inl e \<Rightarrow> None | Inr v \<Rightarrow> Some v) ps"

definition Promise_all :: "(nat \<times> (js_error + 'a)) list \<Rightarrow> event list \<times> (js_error + 'a list)" where
  "Promise_all ps =
     (case settle (settle_order ps) of
        (evs, Some e) \<Rightarrow> (evs, Inl e)
      | (evs, None) \<Rightarrow> (evs, Inr (fulfilled ps)))"

section \<open>The class \<^verbatim>\<open>CloudflareR2Cache\<close>\<close>

record cf_config =
  origin :: string
  zoneId :: string
  apiToken :: string

record CloudflareR2CacheOptions =
  opt_bucket :: string
  cfConfig :: "cf_config option"

record cf_cache =
  CFCache_origin :: string
  CFCache_url :: string
  CFCache_headers :: "(string \<times> string) list"

record CloudflareR2Cache =
  bucket :: string
  CFCache :: "cf_cache option"

definition new_CloudflareR2Cache :: "CloudflareR2CacheOptions \<Rightarrow> CloudflareR2Cache" where
  "new_CloudflareR2Cache opts =
     \<lparr> bucket = opt_bucket opts,
       CFCache =
         (case cfConfig opts of
            None \<Rightarrow> None
          | Some c \<Rightarrow>
              Some \<lparr> CFCache_origin = origin c,
                     CFCache_url =
                       ''https://api.cloudflare.com/client/v4/zones/'' @ zoneId c @ ''/purge_cache'',
                     CFCache_headers =
                       [(''Content-Type'', ''application/json''),
                        (''Authorization'', ''Bearer '' @ apiToken c)] \<rparr>) \<rparr>"

text \<open>
  Every method returns its result (\<open>Inl\<close>: the error it throws) and the events it caused.
\<close>

type_synonym 'a outcome = "(js_error + 'a) \<times> event list"

subsection \<open>\<^verbatim>\<open>keys\<close>\<close>

definition page_objects :: "list_page \<Rightarrow> object_identifier list" where
  "page_objects page =
     (case Contents page of
        None \<Rightarrow> []
      | Some cs \<Rightarrow> filter (\<lambda>ob. truthy (Key ob)) cs)"

definition keys :: "services \<Rightarrow> CloudflareR2Cache \<Rightarrow> request_input option \<Rightarrow> string list outcome" where
  "keys sv this request =
     (let Prefix = getKey request in
      case listObjectsV2 sv (bucket this) Prefix of
        Inl e \<Rightarrow> (Inl e, [S3List (bucket this) Prefix])
      | Inr pages \<Rightarrow>
          (let Objects = concat (map page_objects pages)
           in (Inr (List.map_filter (\<lambda>ob. or_undefined (Key ob)) Objects),
               [S3List (bucket this) Prefix])))"

subsection \<open>Deletion\<close>

text \<open>
  The template literal \<^verbatim>\<open>`${CFCache.origin}${pathname}`\<close> prints an undefined pathname
  as the text \<^verbatim>\<open>undefined\<close>.
\<close>

definition template_text :: "string option \<Rightarrow> string" where
  "template_text v = (case v of None \<Rightarrow> ''undefined'' | Some s \<Rightarrow> s)"

text \<open>
  \<^verbatim>\<open>deleteMany\<close> and \<^verbatim>\<open>deleteAll\<close> share one block: the list is chunked, one
  \<^verbatim>\<open>DeleteObjectsCommand\<close> is sent per chunk (all of them before any answer is awaited),
  the answers are joined with \<^verbatim>\<open>Promise.all\<close>, and the \<^verbatim>\<open>Deleted\<close> lists are
  flattened. A chunking that does not return ends, in JavaScript, as a stack overflow.
\<close>

definition delete_commands :: "request_input list list \<Rightarrow> object_identifier list list" where
  "delete_commands chunks =
     map (\<lambda>chunk. map (\<lambda>req. ObjectIdentifier (getKey (Some req))) chunk) chunks"

definition delete_chunks ::
  "services \<Rightarrow> CloudflareR2Cache \<Rightarrow> request_input list \<Rightarrow> deleted_object list outcome" where
  "delete_chunks sv this requests =
     (case chunkArray requests 1000 of
        None \<Rightarrow> (Inl (Error ''Maximum call stack size exceeded''), [])
      | Some chunks \<Rightarrow>
          (let commands = delete_commands chunks;
               sent = map (\<lambda>(i, objs). S3DeleteSent i objs) (enumerate 0 commands);
               (settled, joined) = Promise_all (map (deleteObjects sv (bucket this)) commands)
           in case joined of
                Inl e \<Rightarrow> (Inl e, sent @ settled)
              | Inr outs \<Rightarrow>
                  (Inr (concat (map (\<lambda>out. case Deleted out of None \<Rightarrow> [] | Some d \<Rightarrow> d) outs)),
                   sent @ settled)))"

text \<open>
  The purge request: \<^verbatim>\<open>fetch(CFCache.url, {method: "POST", headers: CFCache.headers, body})\<close>,
  where \<open>b\<close> is the object the code gives to \<^verbatim>\<open>JSON.stringify\<close>.
\<close>

definition purge_init :: "cf_cache \<Rightarrow> purge_body \<Rightarrow> fetch_init" where
  "purge_init cf b = \<lparr> init_method = ''POST'', init_headers = CFCache_headers cf, init_body = b \<rparr>"

definition purge :: "services \<Rightarrow> cf_cache \<Rightarrow> purge_body \<Rightarrow> unit outcome" where
  "purge sv cf b =
     (fetch sv (CFCache_url cf) (purge_init cf b), [Fetch (CFCache_url cf) (purge_init cf b)])"

definition deleteMany ::
  "services \<Rightarrow> CloudflareR2Cache \<Rightarrow> request_input list \<Rightarrow> deleted_object list outcome" where
  "deleteMany sv this requests =
     (if requests = [] then (Inr [], [])
      else case delete_chunks sv this requests of
        (Inl e, evs) \<Rightarrow> (Inl e, evs)
      | (Inr deleted, evs) \<Rightarrow>
          (let purgeKeys = map (\<lambda>req. getKey (Some req)) requests
           in case CFCache this of
                None \<Rightarrow> (Inr deleted, evs)
              | Some cf \<Rightarrow>
                  (case purge sv cf
                          (PurgeFiles (map (\<lambda>pathname. CFCache_origin cf @ template_text pathname)
                             purgeKeys)) of
                     (Inl e, pevs) \<Rightarrow> (Inl e, evs @ pevs)
                   | (Inr u, pevs) \<Rightarrow> (Inr deleted, evs @ pevs))))"

definition delete ::
  "services \<Rightarrow> CloudflareR2Cache \<Rightarrow> request_input \<Rightarrow> deleted_object list outcome" where
  "delete sv this request = deleteMany sv this [request]"

definition deleteAll :: "services \<Rightarrow> CloudflareR2Cache \<Rightarrow> deleted_object list outcome" where
  "deleteAll sv this =
     (case keys sv this None of
        (Inl e, kevs) \<Rightarrow> (Inl e, kevs)
      | (Inr ks, kevs) \<Rightarrow>
          if ks = [] then (Inr [], kevs)
          else (case delete_chunks sv this (map StringInput ks) of
                  (Inl e, evs) \<Rightarrow> (Inl e, kevs @ evs)
                | (Inr deleted, evs) \<Rightarrow>
                    (case CFCache this of
                       None \<Rightarrow> (Inr deleted, kevs @ evs)
                     | Some cf \<Rightarrow>
                         (case purge sv cf (PurgeEverything True) of
                            (Inl e, pevs) \<Rightarrow> (Inl e, kevs @ evs @ pevs)
                          | (Inr u, pevs) \<Rightarrow> (Inr deleted, kevs @ evs @ pevs)))))"

subsection \<open>\<^verbatim>\<open>match\<close> and \<^verbatim>\<open>put\<close>\<close>

text \<open>
  A \<^verbatim>\<open>Response\<close> is the body and the \<^verbatim>\<open>headers\<close>, \<^verbatim>\<open>status\<close> and
  \<^verbatim>\<open>statusText\<close> it was constructed with. The constructor, as the Fetch standard defines
  it, converts the status to an unsigned 16-bit integer (\<^verbatim>\<open>NaN\<close> becomes 0) and throws a
  \<^verbatim>\<open>RangeError\<close> unless it lies in 200..599; it throws a \<^verbatim>\<open>TypeError\<close> when the status
  text is not a reason phrase (tabs, spaces and the visible and high bytes), and when a body
  is given with a null-body status (of those in range: 204, 205 and 304).
\<close>

record response =
  resp_body :: "string option"
  resp_headers :: headers
  status :: nat
  statusText :: string

definition ToUint16 :: "js_num \<Rightarrow> nat" where
  "ToUint16 x = (case x of NaN \<Rightarrow> 0 | Num i \<Rightarrow> nat (i mod 65536))"

definition null_body_status :: "nat \<Rightarrow> bool" where
  "null_body_status s = (s = 101 \<or> s = 103 \<or> s = 204 \<or> s = 205 \<or> s = 304)"

definition reason_phrase_char :: "char \<Rightarrow> bool" where
  "reason_phrase_char c = (let n = (of_char c :: nat) in n = 9 \<or> (32 \<le> n \<and> n \<noteq> 127))"

definition new_Response ::
  "string option \<Rightarrow> headers \<Rightarrow> js_num \<Rightarrow> string \<Rightarrow> js_error + response" where
  "new_Response body hdrs st phrase =
     (let s = ToUint16 st in
      if s < 200 \<or> 599 < s then Inl (RangeError ''status out of range'')
      else if list_ex (\<lambda>c. \<not> reason_phrase_char c) phrase
        then Inl (TypeError ''invalid status text'')
      else if body \<noteq> None \<and> null_body_status s
        then Inl (TypeError ''response with null body status cannot have body'')
      else Inr \<lparr> resp_body = body, resp_headers = hdrs, status = s, statusText = phrase \<rparr>)"

text \<open>\<^verbatim>\<open>response.arrayBuffer()\<close> of a response whose body has not been read.\<close>

definition arrayBuffer :: "response \<Rightarrow> string" where
  "arrayBuffer r = (case resp_body r of None \<Rightarrow> [] | Some b \<Rightarrow> b)"

definition invalid_key :: js_error where
  "invalid_key = Error ''Invalid cache key from request.''"

text \<open>
  The R2 binding. \<^verbatim>\<open>get\<close> gives the object under the key, or \<^verbatim>\<open>null\<close>. \<^verbatim>\<open>put\<close>
  refuses metadata whose \<^verbatim>\<open>cacheExpiry\<close> is the invalid date; otherwise the object is
  stored with the fingerprint and upload time the store answers, and described by the
  object without its body. The \<^verbatim>\<open>httpEtag\<close> is the fingerprint in double quotes.
\<close>

definition R2_get :: "services \<Rightarrow> r2_bucket \<Rightarrow> string \<Rightarrow> js_error + r2_object option" where
  "R2_get sv store key = (case r2_get_fault sv key of Some e \<Rightarrow> Inl e | None \<Rightarrow> Inr (store key))"

definition R2_put ::
  "services \<Rightarrow> r2_bucket \<Rightarrow> string \<Rightarrow> string \<Rightarrow> r2_put_options \<Rightarrow>
     js_error + r2_object \<times> r2_bucket" where
  "R2_put sv store key body opts =
     (if cacheExpiry (put_httpMetadata opts) = Some InvalidDate
      then Inl (TypeError ''invalid date'')
      else case r2_put_answer sv key body of
        Inl e \<Rightarrow> Inl e
      | Inr (etag, time) \<Rightarrow>
          (let object = \<lparr> r2_key = key, r2_size = length body,
                          httpEtag = CHR 0x22 # etag @ [CHR 0x22], uploaded = time,
                          httpMetadata = Some (put_httpMetadata opts),
                          customMetadata = Some (put_customMetadata opts),
                          r2_body = Some body \<rparr>
           in Inr (object \<lparr> r2_body := None \<rparr>, store(key \<mapsto> object))))"

definition custom_field :: "r2_object \<Rightarrow> string \<Rightarrow> string option" where
  "custom_field object name = (case customMetadata object of None \<Rightarrow> None | Some m \<Rightarrow> m name)"

text \<open>
  The status and the status text \<^verbatim>\<open>match\<close> gives to the constructor:
  \<^verbatim>\<open>object.body ? 200 : 304\<close> and the empty text, replaced by the \<^verbatim>\<open>statusCode\<close>
  (through \<^verbatim>\<open>parseInt\<close>) and the \<^verbatim>\<open>statusText\<close> of the custom metadata when these are
  truthy.
\<close>

definition stored_status :: "r2_object \<Rightarrow> js_num" where
  "stored_status object =
     (case or_undefined (custom_field object ''statusCode'') of
        None \<Rightarrow> if r2_body object \<noteq> None then Num 200 else Num 304
      | Some c \<Rightarrow> parseInt c)"

definition stored_statusText :: "r2_object \<Rightarrow> string" where
  "stored_statusText object =
     (case or_undefined (custom_field object ''statusText'') of None \<Rightarrow> [] | Some t \<Rightarrow> t)"

definition match ::
  "js_runtime \<Rightarrow> services \<Rightarrow> CloudflareR2Cache \<Rightarrow> r2_bucket \<Rightarrow> request_input \<Rightarrow>
     response option outcome" where
  "match rt sv this store request =
     (case or_undefined (getKey (Some request)) of
        None \<Rightarrow> (Inl invalid_key, [])
      | Some key \<Rightarrow>
          (case R2_get sv store key of
             Inl e \<Rightarrow> (Inl e, [R2Get key])
           | Inr None \<Rightarrow> (Inr None, [R2Get key])
           | Inr (Some object) \<Rightarrow>
               (let hdrs = parseHTTPMetadata rt (httpMetadata object);
                    hdrs = Headers_set hdrs ''etag'' (httpEtag object);
                    hdrs = Headers_set hdrs ''Content-Length''
                             (Number_toString (Num (int (r2_size object))));
                    hdrs = Headers_set hdrs ''Last-Modified'' (toUTCString rt (uploaded object));
                    hdrs = Headers_set hdrs ''CDN-Cache-Control''
                             (''public, max-age='' @ Number_toString (Num (60 * 60 * 24 * 365)))
                in case new_Response (r2_body object) hdrs (stored_status object)
                          (stored_statusText object) of
                     Inl e \<Rightarrow> (Inl e, [R2Get key])
                   | Inr r \<Rightarrow> (Inr (Some r), [R2Get key]))))"

definition put ::
  "js_runtime \<Rightarrow> services \<Rightarrow> CloudflareR2Cache \<Rightarrow> r2_bucket \<Rightarrow> request_input \<Rightarrow> response \<Rightarrow>
     (js_error + r2_object) \<times> r2_bucket \<times> event list" where
  "put rt sv this store request resp =
     (case or_undefined (getKey (Some request)) of
        None \<Rightarrow> (Inl invalid_key, store, [])
      | Some key \<Rightarrow>
          (let body = arrayBuffer resp;
               opts = \<lparr> put_httpMetadata = serializeHTTPMetadata rt (resp_headers resp),
                        put_customMetadata =
                          [''statusCode'' \<mapsto> Number_toString (Num (int (status resp))),
                           ''statusText'' \<mapsto> statusText resp] \<rparr>
           in case R2_put sv store key body opts of
                Inl e \<Rightarrow> (Inl e, store, [R2Put key])
              | Inr (descriptor, store') \<Rightarrow> (Inr descriptor, store', [R2Put key])))"

text \<open>
  The texts of a stored object that \<^verbatim>\<open>match\<close> hands to \<^verbatim>\<open>Headers.set\<close>: the truthy
  string fields of its HTTP metadata, its dates as the runtime prints them, and its
  \<^verbatim>\<open>httpEtag\<close>.
\<close>

definition metadata_texts :: "js_runtime \<Rightarrow> http_metadata option \<Rightarrow> string list" where
  "metadata_texts rt hdrs =
     (case hdrs of
        None \<Rightarrow> []
      | Some m \<Rightarrow>
          List.map_filter or_undefined
            [cacheControl m, contentType m, contentDisposition m, contentEncoding m,
             contentLanguage m]
          @ (case cacheExpiry m of None \<Rightarrow> [] | Some d \<Rightarrow> [toUTCString rt d]))"

definition stored_header_texts :: "js_runtime \<Rightarrow> r2_object \<Rightarrow> string list" where
  "stored_header_texts rt object =
     metadata_texts rt (httpMetadata object)
     @ [httpEtag object, toUTCString rt (uploaded object)]"

text \<open>What a trace holds: the batches sent for deletion, the purge requests, the store calls.\<close>

fun sent_batches :: "event list \<Rightarrow> object_identifier list list" where
  "sent_batches [] = []"
| "sent_batches (S3DeleteSent i objs # evs) = objs # sent_batches evs"
| "sent_batches (ev # evs) = sent_batches evs"

fun purges :: "event list \<Rightarrow> (string \<times> fetch_init) list" where
  "purges [] = []"
| "purges (Fetch u init # evs) = (u, init) # purges evs"
| "purges (ev # evs) = purges evs"

fun is_edge_event :: "event \<Rightarrow> bool" where
  "is_edge_event (Fetch u init) = True"
| "is_edge_event ev = False"

definition store_events :: "event list \<Rightarrow> event list" where
  "store_events evs = filter (\<lambda>ev. \<not> is_edge_event ev) evs"

text \<open>
  A runtime and services to run the definitions on. The runtime knows two texts of the
  epoch, the only date it ever prints, and takes every other text for unparseable; the
  examples give it the epoch texts and the text \<^verbatim>\<open>garbage\<close> only.
\<close>

definition demo_runtime :: js_runtime where
  "demo_runtime =
     \<lparr> new_Date =
         (\<lambda>s. if s = ''Thu, 01 Jan 1970 00:00:00 GMT'' \<or> s = ''1970-01-01T00:00:00.000Z''
               then TimeValue 0
               else InvalidDate),
       toUTCString =
         (\<lambda>d. case d of
                 InvalidDate \<Rightarrow> ''Invalid Date''
               | TimeValue t \<Rightarrow> ''Thu, 01 Jan 1970 00:00:00 GMT'') \<rparr>"

definition demo_services :: services where
  "demo_services =
     \<lparr> listObjectsV2 =
         (\<lambda>b p. Inr [ListObjectsV2Output
                        (Some [ObjectIdentifier (Some ''/a''), ObjectIdentifier (Some ''/b'')])]),
       deleteObjects =
         (\<lambda>b objs. (length objs,
                     Inr (DeleteObjectsOutput (Some (map (\<lambda>ob. DeletedObject (Key ob)) objs))))),
       fetch = (\<lambda>u i. Inr ()),
       r2_get_fault = (\<lambda>k. None),
       r2_put_answer = (\<lambda>k body. Inr (''abc'', TimeValue 0)) \<rparr>"

definition demo_options :: CloudflareR2CacheOptions where
  "demo_options =
     \<lparr> opt_bucket = ''cache'',
       cfConfig = Some \<lparr> origin = ''https://example.com'', zoneId = ''z1'', apiToken = ''t'' \<rparr> \<rparr>"

definition demo_cache :: CloudflareR2Cache where
  "demo_cache = new_CloudflareR2Cache demo_options"

text \<open>A response to store, and an object as the store would hold it.\<close>

definition demo_response :: response where
  "demo_response =
     \<lparr> resp_body = Some ''gone'', resp_headers = [''content-type'' \<mapsto> ''text/html''],
       status = 404, statusText = ''Not Found'' \<rparr>"

definition demo_object :: r2_object where
  "demo_object =
     \<lparr> r2_key = ''/blog/post-1'', r2_size = 5, httpEtag = CHR 0x22 # ''abc'' @ [CHR 0x22],
       uploaded = TimeValue 0,
       httpMetadata = Some (serializeHTTPMetadata demo_runtime [''content-type'' \<mapsto> ''text/html'']),
       customMetadata = None, r2_body = Some ''hello'' \<rparr>"

text \<open>A bucket with no objects, and an edge API that cannot be reached.\<close>

definition empty_store_services :: services where
  "empty_store_services = demo_services \<lparr> listObjectsV2 := (\<lambda>b p. Inr [ListObjectsV2Output None]) \<rparr>"

definition failing_edge_services :: services where
  "failing_edge_services = demo_services \<lparr> fetch := (\<lambda>u i. Inl (PurgeError ''network'')) \<rparr>"

text \<open>A store that reports only the key \<^verbatim>\<open>/b\<close> as deleted, whatever it is asked to delete.\<close>

definition partial_delete_services :: services where
  "partial_delete_services =
     demo_services
       \<lparr> deleteObjects :=
           (\<lambda>b objs. (length objs,
                       Inr (DeleteObjectsOutput
                              (Some (map (\<lambda>ob. DeletedObject (Key ob))
                                       (filter (\<lambda>ob. Key ob = Some ''/b'') objs)))))) \<rparr>"

text \<open>The same options constructed without and with an edge configuration.\<close>

definition without_edge :: "CloudflareR2CacheOptions \<Rightarrow> CloudflareR2Cache" where
  "without_edge opts = new_CloudflareR2Cache (opts \<lparr> cfConfig := None \<rparr>)"

definition with_edge :: "CloudflareR2CacheOptions \<Rightarrow> cf_config \<Rightarrow> CloudflareR2Cache" where
  "with_edge opts c = new_CloudflareR2Cache (opts \<lparr> cfConfig := Some c \<rparr>)"

section \<open>Properties of the codec\<close>

lemma lower_names:
  "lower ''expires'' = ''expires''"
  "lower ''cache-control'' = ''cache-control''"
  "lower ''content-type'' = ''content-type''"
  "lower ''content-disposition'' = ''content-disposition''"
  "lower ''content-encoding'' = ''content-encoding''"
  "lower ''content-language'' = ''content-language''"
  "lower ''Expires'' = ''expires''"
  "lower ''Cache-Control'' = ''cache-control''"
  "lower ''Content-Type'' = ''content-type''"
  "lower ''Content-Disposition'' = ''content-disposition''"
  "lower ''Content-Encoding'' = ''content-encoding''"
  "lower ''Content-Language'' = ''content-language''"
  by (simp_all add: lower_def ascii_lower_def)

lemma or_undefined_simps:
  "or_undefined None = None"
  "or_undefined (Some []) = None"
  "s \<noteq> [] \<Longrightarrow> or_undefined (Some s) = Some s"
  by (simp_all add: or_undefined_def truthy_def)

lemma set_if_truthy_apply:
  "set_if_truthy r name v n = (if n = lower name \<and> truthy v then v else r n)"
  by (auto simp: set_if_truthy_def Headers_set_def truthy_def split: option.splits)

lemma serialize_fields:
  "cacheControl (serializeHTTPMetadata rt h) = or_undefined (h ''cache-control'')"
  "cacheExpiry (serializeHTTPMetadata rt h) = map_option (new_Date rt) (or_undefined (h ''expires''))"
  "contentType (serializeHTTPMetadata rt h) = or_undefined (h ''content-type'')"
  "contentDisposition (serializeHTTPMetadata rt h) = or_undefined (h ''content-disposition'')"
  "contentEncoding (serializeHTTPMetadata rt h) = or_undefined (h ''content-encoding'')"
  "contentLanguage (serializeHTTPMetadata rt h) = or_undefined (h ''content-language'')"
  by (simp_all add: serializeHTTPMetadata_def Let_def Headers_get_def lower_names
      or_undefined_def truthy_def split: option.splits)

text \<open>
  The headers \<^verbatim>\<open>parseHTTPMetadata\<close> builds, read name by name: a later \<^verbatim>\<open>set\<close> wins,
  and the six names are distinct.
\<close>

lemma parse_apply:
  "parseHTTPMetadata rt (Some m) n =
     (if n = ''content-language'' \<and> truthy (contentLanguage m) then contentLanguage m
      else if n = ''content-encoding'' \<and> truthy (contentEncoding m) then contentEncoding m
      else if n = ''content-disposition'' \<and> truthy (contentDisposition m) then contentDisposition m
      else if n = ''content-type'' \<and> truthy (contentType m) then contentType m
      else if n = ''expires'' \<and> cacheExpiry m \<noteq> None then map_option (toUTCString rt) (cacheExpiry m)
      else if n = ''cache-control'' \<and> truthy (cacheControl m) then cacheControl m
      else None)"
  by (cases "cacheExpiry m")
    (simp_all add: parseHTTPMetadata_def Let_def set_if_truthy_apply Headers_set_def lower_names)

lemma truthy_or_undefined: "truthy (or_undefined v) = truthy v"
  by (simp add: or_undefined_def truthy_def)

lemma or_undefined_eq_None: "or_undefined v = None \<longleftrightarrow> \<not> truthy v"
  by (simp add: or_undefined_def truthy_def split: option.splits)

text \<open>
  Serialising and parsing back, read name by name: a covered header comes back when its
  value is not empty, the date through the runtime's parser and printer; nothing else
  comes back.
\<close>

lemma parse_serialize_apply:
  "parseHTTPMetadata rt (Some (serializeHTTPMetadata rt h)) n =
     (if n = ''expires''
      then map_option (\<lambda>e. toUTCString rt (new_Date rt e)) (or_undefined (h n))
      else if List.member codec_fields n then or_undefined (h n) else None)"
  by (simp add: parse_apply serialize_fields codec_fields_def option.map_comp comp_def
      or_undefined_eq_None truthy_or_undefined)
    (auto simp: or_undefined_def)

text \<open>
  Claim C4, as the specification states it, is false: for headers restricted to the six
  codec fields, parsing the serialised metadata should give the headers back, up to the
  normalisation of the \<^verbatim>\<open>Expires\<close> date. A header whose value is the empty string
  (here \<^verbatim>\<open>content-type\<close>) is restricted to the six fields and does not come back.
\<close>

theorem codec_round_trip_counterexample:
  "dom [''content-type'' \<mapsto> []] \<subseteq> set codec_fields
   \<and> parseHTTPMetadata demo_runtime
        (Some (serializeHTTPMetadata demo_runtime [''content-type'' \<mapsto> []]))
       \<noteq> (\<lambda>n. if n = ''expires''
               then map_option (\<lambda>e. toUTCString demo_runtime (new_Date demo_runtime e))
                      ([''content-type'' \<mapsto> []] n)
               else [''content-type'' \<mapsto> []] n)"
proof -
  have "parseHTTPMetadata demo_runtime
          (Some (serializeHTTPMetadata demo_runtime [''content-type'' \<mapsto> []])) ''content-type''
        = None"
    by (simp add: parse_serialize_apply or_undefined_def truthy_def)
  then show ?thesis
    by (auto simp: codec_fields_def dest: fun_cong [where x = "''content-type''"])
qed

text \<open>
  An \<^verbatim>\<open>Expires\<close> value that does not parse is no date to normalise: it is serialised as
  the invalid date, which the store refuses, and which would be parsed back as the text
  \<^verbatim>\<open>Invalid Date\<close>.
\<close>

lemma codec_unparseable_expires:
  "cacheExpiry (serializeHTTPMetadata demo_runtime [''expires'' \<mapsto> ''garbage'']) = Some InvalidDate
   \<and> parseHTTPMetadata demo_runtime
        (Some (serializeHTTPMetadata demo_runtime [''expires'' \<mapsto> ''garbage'']))
      = [''expires'' \<mapsto> ''Invalid Date'']"
proof -
  have "parseHTTPMetadata demo_runtime
          (Some (serializeHTTPMetadata demo_runtime [''expires'' \<mapsto> ''garbage'']))
        = [''expires'' \<mapsto> ''Invalid Date'']"
    by (rule ext) (simp add: parse_serialize_apply codec_fields_def or_undefined_def truthy_def
        demo_runtime_def)
  then show ?thesis
    by (simp add: serialize_fields or_undefined_def truthy_def demo_runtime_def)
qed

text \<open>
  Claim C4, amended: for every header set \<open>h\<close> restricted to the six codec fields in which
  no header has the empty string as its value and whose \<^verbatim>\<open>Expires\<close> value, if there is
  one, parses to a valid date, \<^verbatim>\<open>parseHTTPMetadata(serializeHTTPMetadata(h))\<close> is \<open>h\<close>
  with the \<^verbatim>\<open>Expires\<close> value replaced by the UTC rendering of that date; a field absent
  from \<open>h\<close> is absent from the result.
\<close>

theorem codec_round_trip_parseable:
  assumes "dom h \<subseteq> set codec_fields" and "\<forall>n. h n \<noteq> Some []"
    and "\<forall>e. h ''expires'' = Some e \<longrightarrow> new_Date rt e \<noteq> InvalidDate"
  shows "parseHTTPMetadata rt (Some (serializeHTTPMetadata rt h)) =
         (\<lambda>n. if n = ''expires'' then map_option (\<lambda>e. toUTCString rt (new_Date rt e)) (h n)
               else h n)
         \<and> cacheExpiry (serializeHTTPMetadata rt h) \<noteq> Some InvalidDate"
proof
  show "parseHTTPMetadata rt (Some (serializeHTTPMetadata rt h)) =
         (\<lambda>n. if n = ''expires'' then map_option (\<lambda>e. toUTCString rt (new_Date rt e)) (h n)
               else h n)"
  proof
    fix n
    have absent: "h n = None" if "\<not> List.member codec_fields n"
      using that assms(1) by (auto simp: dom_def)
    have keep: "or_undefined (h n) = h n"
      using assms(2) by (cases "h n") (auto simp: or_undefined_def truthy_def)
    show "parseHTTPMetadata rt (Some (serializeHTTPMetadata rt h)) n =
          (if n = ''expires'' then map_option (\<lambda>e. toUTCString rt (new_Date rt e)) (h n) else h n)"
      unfolding parse_serialize_apply keep using absent
      by (cases "h n") auto
  qed
  show "cacheExpiry (serializeHTTPMetadata rt h) \<noteq> Some InvalidDate"
    using assms(3)
    by (cases "h ''expires''") (auto simp: serialize_fields or_undefined_def truthy_def)
qed

theorem codec_round_trip_parseable_witness:
  "dom [''content-type'' \<mapsto> ''text/html'', ''expires'' \<mapsto> ''1970-01-01T00:00:00.000Z'']
     \<subseteq> set codec_fields
   \<and> (\<forall>n. [''content-type'' \<mapsto> ''text/html'', ''expires'' \<mapsto> ''1970-01-01T00:00:00.000Z''] n
           \<noteq> Some [])
   \<and> new_Date demo_runtime ''1970-01-01T00:00:00.000Z'' = TimeValue 0
   \<and> parseHTTPMetadata demo_runtime
        (Some (serializeHTTPMetadata demo_runtime
           [''content-type'' \<mapsto> ''text/html'', ''expires'' \<mapsto> ''1970-01-01T00:00:00.000Z'']))
      = [''content-type'' \<mapsto> ''text/html'', ''expires'' \<mapsto> ''Thu, 01 Jan 1970 00:00:00 GMT'']"
proof -
  let ?h = "[''content-type'' \<mapsto> ''text/html'', ''expires'' \<mapsto> ''1970-01-01T00:00:00.000Z'']"
  have d: "dom ?h \<subseteq> set codec_fields" by (simp add: codec_fields_def)
  have e: "\<forall>n. ?h n \<noteq> Some []" by simp
  have p: "new_Date demo_runtime ''1970-01-01T00:00:00.000Z'' = TimeValue 0"
    by (simp add: demo_runtime_def)
  have v: "\<forall>e. ?h ''expires'' = Some e \<longrightarrow> new_Date demo_runtime e \<noteq> InvalidDate"
    by (simp add: p)
  have "parseHTTPMetadata demo_runtime (Some (serializeHTTPMetadata demo_runtime ?h)) =
        [''content-type'' \<mapsto> ''text/html'', ''expires'' \<mapsto> ''Thu, 01 Jan 1970 00:00:00 GMT'']"
    unfolding codec_round_trip_parseable [OF d e v, THEN conjunct1]
    by (rule ext) (simp add: demo_runtime_def)
  with d e p show ?thesis by blast
qed

text \<open>
  Claim C10: a header whose value is the empty string is serialised exactly as if it were
  absent (the metadata is the metadata of the header set without it), and so it is missing
  from \<^verbatim>\<open>parseHTTPMetadata(serializeHTTPMetadata(h))\<close> instead of being reproduced. This
  holds for every header name, the six covered ones among them.
\<close>

theorem serialize_drops_empty:
  assumes "h n = Some []"
  shows "serializeHTTPMetadata rt h = serializeHTTPMetadata rt (h(n := None))
         \<and> parseHTTPMetadata rt (Some (serializeHTTPMetadata rt h)) n = None"
proof
  have same: "or_undefined (h m) = or_undefined ((h(n := None)) m)" for m
    using assms by (simp add: or_undefined_def truthy_def)
  show "serializeHTTPMetadata rt h = serializeHTTPMetadata rt (h(n := None))"
    by (rule http_metadata.equality)
      (simp_all only: serialize_fields same [symmetric],
        simp add: serializeHTTPMetadata_def Let_def)
  show "parseHTTPMetadata rt (Some (serializeHTTPMetadata rt h)) n = None"
    using assms by (auto simp: parse_serialize_apply or_undefined_def truthy_def)
qed

theorem serialize_drops_empty_witness:
  "[''content-type'' \<mapsto> [], ''cache-control'' \<mapsto> ''no-store''] ''content-type'' = Some []
   \<and> serializeHTTPMetadata demo_runtime [''content-type'' \<mapsto> [], ''cache-control'' \<mapsto> ''no-store'']
     = serializeHTTPMetadata demo_runtime
         ([''content-type'' \<mapsto> [], ''cache-control'' \<mapsto> ''no-store''](''content-type'' := None))
   \<and> parseHTTPMetadata demo_runtime
        (Some (serializeHTTPMetadata demo_runtime
           [''content-type'' \<mapsto> [], ''cache-control'' \<mapsto> ''no-store''])) ''content-type'' = None"
proof -
  let ?h = "[''content-type'' \<mapsto> [], ''cache-control'' \<mapsto> ''no-store'']"
  have a: "?h ''content-type'' = Some []"
    by simp
  show ?thesis
    using a serialize_drops_empty [of ?h "''content-type''" demo_runtime] by blast
qed

section \<open>Chunking and the trace of a deletion\<close>

text \<open>
  \<^verbatim>\<open>chunkArray\<close> returns for every positive chunk size: the chunks concatenate to the
  array, none is longer than the size, and there are \<open>\<lceil>n / size\<rceil>\<close> of them (one, the
  empty chunk, for the empty array).
\<close>

lemma ceil_div_step:
  assumes "0 < sz" and "0 < n"
  shows "(n + sz - 1) div sz = Suc ((n - 1) div sz)"
proof -
  obtain m where n: "n = Suc m"
    using assms(2) by (cases n) auto
  have "(Suc m + sz - 1) div sz = (m + sz) div sz"
    by simp
  also have "\<dots> = Suc (m div sz)"
    using assms(1) div_add_self2 [of sz m] by simp
  finally show ?thesis
    by (simp add: n)
qed

lemma chunkArray_returns:
  assumes "0 < sz"
  shows "\<exists>cs. chunkArray arr sz = Some cs \<and> concat cs = arr \<and> list_all (\<lambda>c. length c \<le> sz) cs
           \<and> length cs = (if arr = [] then 1 else (length arr + sz - 1) div sz)"
proof (induction "length arr" arbitrary: arr rule: less_induct)
  case less
  show ?case
  proof (cases "sz < length arr")
    case True
    then have shorter: "length (drop sz arr) < length arr" and rest: "drop sz arr \<noteq> []"
      using assms by auto
    from less [OF shorter] rest obtain cs where
      cs: "chunkArray (drop sz arr) sz = Some cs" "concat cs = drop sz arr"
        "list_all (\<lambda>c. length c \<le> sz) cs" "length cs = (length (drop sz arr) + sz - 1) div sz"
      by auto
    have "0 < length arr" using True by linarith
    from ceil_div_step [OF assms this] True
    have count: "Suc ((length (drop sz arr) + sz - 1) div sz) = (length arr + sz - 1) div sz"
      by simp
    have "chunkArray arr sz = Some (take sz arr # cs)"
      using True cs(1) by (subst chunkArray.simps) simp
    with cs count True show ?thesis by auto
  next
    case False
    then have "chunkArray arr sz = Some [arr]"
      by (subst chunkArray.simps) simp
    moreover have "(length arr + sz - 1) div sz = 1" if "arr \<noteq> []"
    proof -
      have "0 < length arr" using that by simp
      from ceil_div_step [OF assms this] False show ?thesis by simp
    qed
    ultimately show ?thesis using False by auto
  qed
qed

lemma sent_batches_append: "sent_batches (xs @ ys) = sent_batches xs @ sent_batches ys"
  by (induction xs rule: sent_batches.induct) auto

lemma purges_append: "purges (xs @ ys) = purges xs @ purges ys"
  by (induction xs rule: purges.induct) auto

lemma sent_batches_sent:
  "sent_batches (map (\<lambda>(i, objs). S3DeleteSent i objs) (enumerate k cmds)) = cmds"
  by (induction cmds arbitrary: k) auto

lemma purges_sent:
  "purges (map (\<lambda>(i, objs). S3DeleteSent i objs) (enumerate k cmds)) = []"
  by (induction cmds arbitrary: k) auto

lemma settle_events:
  "settle xs = (evs, r) \<Longrightarrow> sent_batches evs = [] \<and> purges evs = [] \<and> list_all (\<lambda>ev. \<not> is_edge_event ev) evs"
  by (induction xs arbitrary: evs r rule: settle.induct) (auto split: prod.splits)

lemma settle_fulfilled:
  "settle xs = (evs, None) \<Longrightarrow> evs = map (\<lambda>(i, t, r). Settled i True) xs"
  by (induction xs arbitrary: evs rule: settle.induct) (auto split: prod.splits)


lemma not_edge_sent:
  "list_all (\<lambda>ev. \<not> is_edge_event ev) (map (\<lambda>(i, objs). S3DeleteSent i objs) (enumerate k cmds))"
  by (induction cmds arbitrary: k) auto

lemma Promise_all_events:
  assumes "Promise_all ps = (evs, joined)"
  shows "sent_batches evs = []" and "purges evs = []"
    and "list_all (\<lambda>ev. \<not> is_edge_event ev) evs"
  using assms settle_events [of "settle_order ps"]
  by (auto simp: Promise_all_def split: prod.splits option.splits)

lemma settle_order_index:
  assumes "i < length ps"
  shows "(i, ps ! i) \<in> set (settle_order ps)"
  using assms by (simp add: settle_order_def in_set_enumerate_eq)

lemma Promise_all_fulfilled:
  assumes "Promise_all ps = (evs, Inr outs)" and "i < length ps"
  shows "Settled i True \<in> set evs"
proof -
  from assms(1) have "settle (settle_order ps) = (evs, None)"
    by (auto simp: Promise_all_def split: prod.splits option.splits)
  then have evs: "evs = map (\<lambda>(i, t, r). Settled i True) (settle_order ps)"
    by (rule settle_fulfilled)
  obtain t r where "ps ! i = (t, r)"
    by (cases "ps ! i")
  with settle_order_index [OF assms(2)] have "(i, t, r) \<in> set (settle_order ps)"
    by simp
  then show ?thesis
    unfolding evs by force
qed

lemma concat_delete_commands:
  "concat (delete_commands cs) = map (\<lambda>req. ObjectIdentifier (getKey (Some req))) (concat cs)"
  by (simp add: delete_commands_def map_concat)

lemma delete_chunks_shape:
  "\<exists>cmds settled.
     length cmds = (if requests = [] then 1 else (length requests + 999) div 1000)
     \<and> concat cmds = map (\<lambda>req. ObjectIdentifier (getKey (Some req))) requests
     \<and> list_all (\<lambda>c. length c \<le> 1000) cmds
     \<and> snd (delete_chunks sv this requests) =
         map (\<lambda>(i, objs). S3DeleteSent i objs) (enumerate 0 cmds) @ settled
     \<and> sent_batches settled = [] \<and> purges settled = []
     \<and> list_all (\<lambda>ev. \<not> is_edge_event ev) settled
     \<and> (\<forall>d. fst (delete_chunks sv this requests) = Inr d \<longrightarrow>
            (\<forall>i < length cmds. Settled i True \<in> set settled))"
proof -
  obtain cs where cs: "chunkArray requests 1000 = Some cs" "concat cs = requests"
    "list_all (\<lambda>c. length c \<le> 1000) cs"
    "length cs = (if requests = [] then 1 else (length requests + 1000 - 1) div 1000)"
    using chunkArray_returns [of 1000 requests] by auto
  let ?cmds = "delete_commands cs"
  let ?ps = "map (deleteObjects sv (bucket this)) ?cmds"
  obtain settled joined where pa: "Promise_all ?ps = (settled, joined)"
    by (cases "Promise_all ?ps")
  have shape: "snd (delete_chunks sv this requests) =
       map (\<lambda>(i, objs). S3DeleteSent i objs) (enumerate 0 ?cmds) @ settled"
    using cs(1) pa by (simp add: delete_chunks_def Let_def split: sum.splits)
  have ok: "Settled i True \<in> set settled"
    if "fst (delete_chunks sv this requests) = Inr d" "i < length ?cmds" for d i
  proof -
    from that(1) cs(1) pa obtain outs where "joined = Inr outs"
      by (cases joined) (auto simp: delete_chunks_def Let_def)
    with pa that(2) Promise_all_fulfilled [of ?ps settled outs i] show ?thesis
      by simp
  qed
  have len: "length ?cmds = (if requests = [] then 1 else (length requests + 999) div 1000)"
    using cs(4) by (simp add: delete_commands_def add.commute)
  have small: "list_all (\<lambda>c. length c \<le> 1000) ?cmds"
    using cs(3) by (simp add: delete_commands_def list_all_iff)
  have cat: "concat ?cmds = map (\<lambda>req. ObjectIdentifier (getKey (Some req))) requests"
    using concat_delete_commands [of cs] cs(2) by simp
  from len cat small shape Promise_all_events [OF pa] ok show ?thesis
    by blast
qed


lemma ceil_div_1000: "(n + 999) div 1000 = nat \<lceil>real n / 1000\<rceil>"
proof -
  have "\<lceil>real n / 1000\<rceil> = \<lceil>of_int (int n) / (of_int 1000 :: real)\<rceil>"
    by simp
  also have "\<dots> = - (- int n div 1000)"
    by (rule ceiling_divide_eq_div)
  also have "\<dots> = int ((n + 999) div 1000)"
    by (simp add: zdiv_int)
  finally show ?thesis
    by simp
qed

lemma deleteMany_events:
  assumes "requests \<noteq> []"
  shows "snd (deleteMany sv this requests) =
         snd (delete_chunks sv this requests) @
         (case fst (delete_chunks sv this requests) of
            Inl e \<Rightarrow> []
          | Inr d \<Rightarrow>
              (case CFCache this of
                 None \<Rightarrow> []
               | Some cf \<Rightarrow>
                   [Fetch (CFCache_url cf)
                      (purge_init cf
                         (PurgeFiles (map (\<lambda>req. CFCache_origin cf @ template_text (getKey (Some req)))
                            requests)))]))"
  using assms
  by (cases "delete_chunks sv this requests")
    (auto simp: deleteMany_def purge_def Let_def comp_def split: sum.splits option.splits prod.splits)

lemma sent_batches_Fetch: "sent_batches [Fetch u i] = []"
  by simp

lemma deleteMany_sent_batches:
  assumes "requests \<noteq> []"
  shows "sent_batches (snd (deleteMany sv this requests)) =
         sent_batches (snd (delete_chunks sv this requests))"
  unfolding deleteMany_events [OF assms] sent_batches_append
  by (simp split: sum.splits option.splits)

text \<open>
  Claim C6: for every list of \<open>N \<ge> 1\<close> requests, \<^verbatim>\<open>deleteMany\<close> sends exactly
  \<open>\<lceil>N / 1000\<rceil>\<close> batch-delete commands; the batches concatenated are the keys of the
  requests, in order, each once (nothing added, nothing left out); no batch holds more than
  1000 entries.
\<close>

theorem deleteMany_chunk_partition:
  assumes "requests \<noteq> []"
  shows "length (sent_batches (snd (deleteMany sv this requests)))
           = nat \<lceil>real (length requests) / 1000\<rceil>
         \<and> concat (sent_batches (snd (deleteMany sv this requests)))
           = map (\<lambda>req. ObjectIdentifier (getKey (Some req))) requests
         \<and> list_all (\<lambda>batch. length batch \<le> 1000) (sent_batches (snd (deleteMany sv this requests)))"
proof -
  obtain cmds settled where
    len: "length cmds = (if requests = [] then 1 else (length requests + 999) div 1000)"
    and cat: "concat cmds = map (\<lambda>req. ObjectIdentifier (getKey (Some req))) requests"
    and small: "list_all (\<lambda>c. length c \<le> 1000) cmds"
    and shape: "snd (delete_chunks sv this requests) =
       map (\<lambda>(i, objs). S3DeleteSent i objs) (enumerate 0 cmds) @ settled"
    and none: "sent_batches settled = []"
    using delete_chunks_shape [of requests sv this] by blast
  have "sent_batches (snd (deleteMany sv this requests)) = cmds"
    unfolding deleteMany_sent_batches [OF assms] shape sent_batches_append sent_batches_sent none
    by simp
  with len cat small assms show ?thesis
    by (simp add: ceil_div_1000)
qed

lemma demo_cache_eval:
  "demo_cache =
     \<lparr> bucket = ''cache'',
       CFCache =
         Some \<lparr> CFCache_origin = ''https://example.com'',
                CFCache_url = ''https://api.cloudflare.com/client/v4/zones/z1/purge_cache'',
                CFCache_headers =
                  [(''Content-Type'', ''application/json''), (''Authorization'', ''Bearer t'')] \<rparr> \<rparr>"
  by (simp add: demo_cache_def demo_options_def new_CloudflareR2Cache_def)

lemma deleteMany_demo:
  "deleteMany demo_services demo_cache [StringInput ''/a'', StringInput ''/b''] =
     (Inr [DeletedObject (Some ''/a''), DeletedObject (Some ''/b'')],
      [S3DeleteSent 0 [ObjectIdentifier (Some ''/a''), ObjectIdentifier (Some ''/b'')],
       Settled 0 True,
       Fetch ''https://api.cloudflare.com/client/v4/zones/z1/purge_cache''
         \<lparr> init_method = ''POST'',
           init_headers =
             [(''Content-Type'', ''application/json''), (''Authorization'', ''Bearer t'')],
           init_body = PurgeFiles [''https://example.com/a'', ''https://example.com/b''] \<rparr>])"
  by (simp add: deleteMany_def delete_chunks_def chunkArray.simps delete_commands_def
      Promise_all_def settle_order_def fulfilled_def List.map_filter_def purge_def purge_init_def
      demo_services_def demo_cache_eval template_text_def Let_def)

text \<open>
  A run with 1001 requests: two commands, of 1000 keys and of one key; the small one is
  answered first; the purge comes last and names all 1001 URLs.
\<close>

lemma deleteMany_two_chunks:
  "snd (deleteMany demo_services demo_cache (replicate 1001 (StringInput ''/a''))) =
   [S3DeleteSent 0 (replicate 1000 (ObjectIdentifier (Some ''/a''))),
    S3DeleteSent 1 [ObjectIdentifier (Some ''/a'')],
    Settled 1 True, Settled 0 True,
    Fetch ''https://api.cloudflare.com/client/v4/zones/z1/purge_cache''
      \<lparr> init_method = ''POST'',
        init_headers =
          [(''Content-Type'', ''application/json''), (''Authorization'', ''Bearer t'')],
        init_body = PurgeFiles (replicate 1001 ''https://example.com/a'') \<rparr>]"
proof -
  have chunks: "chunkArray (replicate 1001 (StringInput ''/a'')) 1000
      = Some [replicate 1000 (StringInput ''/a''), [StringInput ''/a'']]"
    by (subst chunkArray.simps, simp, subst chunkArray.simps, simp add: min_def)
  show ?thesis
    by (simp add: deleteMany_def delete_chunks_def chunks delete_commands_def
      Promise_all_def settle_order_def fulfilled_def List.map_filter_def purge_def purge_init_def
      demo_services_def demo_cache_eval template_text_def Let_def map_replicate)
qed

theorem deleteMany_chunk_partition_witness:
  "replicate 1001 (StringInput ''/a'') \<noteq> []
   \<and> sent_batches (snd (deleteMany demo_services demo_cache (replicate 1001 (StringInput ''/a''))))
       = [replicate 1000 (ObjectIdentifier (Some ''/a'')), [ObjectIdentifier (Some ''/a'')]]
   \<and> length (sent_batches
         (snd (deleteMany demo_services demo_cache (replicate 1001 (StringInput ''/a'')))))
       = nat \<lceil>real (length (replicate 1001 (StringInput ''/a''))) / 1000\<rceil>"
proof -
  have ne: "replicate 1001 (StringInput ''/a'') \<noteq> []"
    by simp
  have sent: "sent_batches
      (snd (deleteMany demo_services demo_cache (replicate 1001 (StringInput ''/a''))))
      = [replicate 1000 (ObjectIdentifier (Some ''/a'')), [ObjectIdentifier (Some ''/a'')]]"
    by (simp add: deleteMany_two_chunks)
  from ne sent deleteMany_chunk_partition [OF ne, of demo_services demo_cache] show ?thesis
    by blast
qed

section \<open>The order of deletion and purge\<close>

text \<open>
  Two runs of the join. The call that answers first settles first, and the answers are
  returned in the order of the calls; a failure rejects the join at once, before the
  slower calls have answered.
\<close>

lemma Promise_all_fulfilled_example:
  "Promise_all [(5, Inr a), (1, Inr b)] = ([Settled 1 True, Settled 0 True], Inr [a, b])"
  by (simp add: Promise_all_def settle_order_def fulfilled_def List.map_filter_def)

lemma Promise_all_rejected_example:
  "Promise_all [(5, Inr a), (1, Inl e), (0, Inr c)] = ([Settled 2 True, Settled 1 False], Inl e)"
  by (simp add: Promise_all_def settle_order_def fulfilled_def List.map_filter_def)

lemma fetch_is_last:
  assumes "list_all (\<lambda>ev. \<not> is_edge_event ev) D" and "D @ rest = pre @ Fetch u i # post"
    and "rest = [] \<or> (\<exists>a b. rest = [Fetch a b])"
  shows "pre = D \<and> post = [] \<and> rest = [Fetch u i]"
  using assms
proof (induction D arbitrary: pre)
  case Nil
  then show ?case by (cases pre) auto
next
  case (Cons d D)
  show ?case
  proof (cases pre)
    case Nil
    with Cons.prems show ?thesis by auto
  next
    case (Cons p pre')
    with Cons.prems Cons.IH [of pre'] show ?thesis by auto
  qed
qed

lemma sent_member:
  assumes "i < length cmds"
  shows "S3DeleteSent i (cmds ! i) \<in> set (map (\<lambda>(i, objs). S3DeleteSent i objs) (enumerate 0 cmds))"
proof -
  have "(i, cmds ! i) \<in> set (enumerate 0 cmds)"
    using assms by (simp add: in_set_enumerate_eq)
  then show ?thesis by force
qed

text \<open>
  Claim C2: for every non-empty request list, a purge request in the trace of
  \<^verbatim>\<open>deleteMany\<close> comes strictly after every chunk's batch-delete call has been sent and
  has resolved: everything before it holds the \<open>\<lceil>N / 1000\<rceil>\<close> commands and, for each of
  them, the record that it settled successfully, and no earlier purge; nothing follows it.
  (When a chunk's call fails the join is rejected and no purge is in the trace at all.)
\<close>

theorem purge_after_chunk_deletes:
  assumes "requests \<noteq> []"
    and "snd (deleteMany sv this requests) = pre @ Fetch u init # post"
  shows "post = [] \<and> purges pre = []
         \<and> length (sent_batches pre) = nat \<lceil>real (length requests) / 1000\<rceil>
         \<and> (\<forall>i < length (sent_batches pre).
               S3DeleteSent i (sent_batches pre ! i) \<in> set pre \<and> Settled i True \<in> set pre)"
proof -
  obtain cmds settled where
    len: "length cmds = (if requests = [] then 1 else (length requests + 999) div 1000)"
    and cat: "concat cmds = map (\<lambda>req. ObjectIdentifier (getKey (Some req))) requests"
    and small: "list_all (\<lambda>c. length c \<le> 1000) cmds"
    and shape: "snd (delete_chunks sv this requests) =
       map (\<lambda>(i, objs). S3DeleteSent i objs) (enumerate 0 cmds) @ settled"
    and none: "sent_batches settled = []" "purges settled = []"
      "list_all (\<lambda>ev. \<not> is_edge_event ev) settled"
    and ok: "\<forall>d. fst (delete_chunks sv this requests) = Inr d \<longrightarrow>
       (\<forall>i < length cmds. Settled i True \<in> set settled)"
    using delete_chunks_shape [of requests sv this] by blast
  let ?D = "snd (delete_chunks sv this requests)"
  let ?tl = "case fst (delete_chunks sv this requests) of
            Inl e \<Rightarrow> []
          | Inr d \<Rightarrow>
              (case CFCache this of
                 None \<Rightarrow> []
               | Some cf \<Rightarrow>
                   [Fetch (CFCache_url cf)
                      (purge_init cf
                         (PurgeFiles (map (\<lambda>req. CFCache_origin cf @ template_text (getKey (Some req)))
                            requests)))])"
  have quiet: "list_all (\<lambda>ev. \<not> is_edge_event ev) ?D"
    unfolding shape using none(3) not_edge_sent [of 0 cmds] by simp
  have split: "?D @ ?tl = pre @ Fetch u init # post"
    using deleteMany_events [OF assms(1), of sv this] assms(2) by simp
  have tl: "?tl = [] \<or> (\<exists>a b. ?tl = [Fetch a b])"
    by (simp split: sum.splits option.splits)
  from fetch_is_last [OF quiet split tl]
  have pre: "pre = ?D" and post: "post = []" and fired: "?tl = [Fetch u init]"
    by simp_all
  from fired obtain d where joined: "fst (delete_chunks sv this requests) = Inr d"
    by (cases "fst (delete_chunks sv this requests)") auto
  have batches: "sent_batches pre = cmds"
    unfolding pre shape sent_batches_append sent_batches_sent none by simp
  have quiet_pre: "purges pre = []"
    unfolding pre shape purges_append purges_sent none by simp
  have each: "S3DeleteSent i (cmds ! i) \<in> set pre \<and> Settled i True \<in> set pre"
    if "i < length cmds" for i
    using sent_member [OF that] ok joined that unfolding pre shape by auto
  from post quiet_pre batches len assms(1) each show ?thesis
    by (simp add: ceil_div_1000)
qed

theorem purge_after_chunk_deletes_witness:
  "replicate 1001 (StringInput ''/a'') \<noteq> []
   \<and> snd (deleteMany demo_services demo_cache (replicate 1001 (StringInput ''/a'')))
       = [S3DeleteSent 0 (replicate 1000 (ObjectIdentifier (Some ''/a''))),
          S3DeleteSent 1 [ObjectIdentifier (Some ''/a'')],
          Settled 1 True, Settled 0 True]
         @ Fetch ''https://api.cloudflare.com/client/v4/zones/z1/purge_cache''
             \<lparr> init_method = ''POST'',
               init_headers =
                 [(''Content-Type'', ''application/json''), (''Authorization'', ''Bearer t'')],
               init_body = PurgeFiles (replicate 1001 ''https://example.com/a'') \<rparr>
         # []
   \<and> Settled 0 True
        \<in> set [S3DeleteSent 0 (replicate 1000 (ObjectIdentifier (Some ''/a''))),
               S3DeleteSent 1 [ObjectIdentifier (Some ''/a'')],
               Settled 1 True, Settled 0 True]
   \<and> Settled 1 True
        \<in> set [S3DeleteSent 0 (replicate 1000 (ObjectIdentifier (Some ''/a''))),
               S3DeleteSent 1 [ObjectIdentifier (Some ''/a'')],
               Settled 1 True, Settled 0 True]"
proof -
  let ?pre = "[S3DeleteSent 0 (replicate 1000 (ObjectIdentifier (Some ''/a''))),
          S3DeleteSent 1 [ObjectIdentifier (Some ''/a'')],
          Settled 1 True, Settled 0 True]"
  have ne: "replicate 1001 (StringInput ''/a'') \<noteq> []"
    by simp
  have run: "snd (deleteMany demo_services demo_cache (replicate 1001 (StringInput ''/a'')))
       = ?pre
         @ Fetch ''https://api.cloudflare.com/client/v4/zones/z1/purge_cache''
             \<lparr> init_method = ''POST'',
               init_headers =
                 [(''Content-Type'', ''application/json''), (''Authorization'', ''Bearer t'')],
               init_body = PurgeFiles (replicate 1001 ''https://example.com/a'') \<rparr>
         # []"
    by (simp add: deleteMany_two_chunks)
  from purge_after_chunk_deletes [OF ne run]
  have "\<forall>i < length (sent_batches ?pre). Settled i True \<in> set ?pre"
    by blast
  then have "Settled 0 True \<in> set ?pre" and "Settled 1 True \<in> set ?pre"
    by simp_all
  with ne run show ?thesis
    by blast
qed

section \<open>What the purge names, and the empty store\<close>

lemma delete_chunks_purges: "purges (snd (delete_chunks sv this requests)) = []"
proof -
  obtain cmds settled where
    "snd (delete_chunks sv this requests) =
       map (\<lambda>(i, objs). S3DeleteSent i objs) (enumerate 0 cmds) @ settled"
    and "purges settled = []"
    using delete_chunks_shape [of requests sv this] by blast
  then show ?thesis
    by (simp add: purges_append purges_sent)
qed

lemma delete_chunks_sent:
  "concat (sent_batches (snd (delete_chunks sv this requests))) =
     map (\<lambda>req. ObjectIdentifier (getKey (Some req))) requests"
proof -
  obtain cmds settled where
    "concat cmds = map (\<lambda>req. ObjectIdentifier (getKey (Some req))) requests"
    and "snd (delete_chunks sv this requests) =
       map (\<lambda>(i, objs). S3DeleteSent i objs) (enumerate 0 cmds) @ settled"
    and "sent_batches settled = []"
    using delete_chunks_shape [of requests sv this] by blast
  then show ?thesis
    by (simp add: sent_batches_append sent_batches_sent)
qed

text \<open>
  Claim C8, as the specification states it, is false: the purge request should name
  exactly the deleted keys. The code builds the purge from the requests, not from what the
  store reports deleted. With a store that deletes only \<^verbatim>\<open>/b\<close>, \<^verbatim>\<open>deleteMany\<close> of
  \<^verbatim>\<open>/a\<close> and \<^verbatim>\<open>/b\<close> returns \<^verbatim>\<open>/b\<close> alone as deleted, and purges both URLs.
\<close>

theorem purge_names_deleted_keys_counterexample:
  "fst (deleteMany partial_delete_services demo_cache [StringInput ''/a'', StringInput ''/b''])
     = Inr [DeletedObject (Some ''/b'')]
   \<and> map (\<lambda>(u, init). init_body init)
         (purges (snd (deleteMany partial_delete_services demo_cache
                         [StringInput ''/a'', StringInput ''/b''])))
     = [PurgeFiles [''https://example.com/a'', ''https://example.com/b'']]
   \<and> [''https://example.com/a'', ''https://example.com/b'']
     \<noteq> map (\<lambda>d. ''https://example.com'' @ template_text (DeletedKey d))
         [DeletedObject (Some ''/b'')]"
  by (simp add: deleteMany_def delete_chunks_def chunkArray.simps delete_commands_def
      Promise_all_def settle_order_def fulfilled_def List.map_filter_def purge_def purge_init_def
      partial_delete_services_def demo_services_def demo_cache_eval template_text_def Let_def)

text \<open>
  The key of a string request is the string itself, so the purge URL of a request given as
  a full URL is the origin followed by that URL.
\<close>

lemma purge_of_url_string:
  "map (\<lambda>(u, init). init_body init)
     (purges (snd (deleteMany demo_services demo_cache [StringInput ''https://example.com/a''])))
   = [PurgeFiles [''https://example.comhttps://example.com/a'']]"
  by (simp add: deleteMany_def delete_chunks_def chunkArray.simps delete_commands_def
      Promise_all_def settle_order_def fulfilled_def List.map_filter_def purge_def purge_init_def
      demo_services_def demo_cache_eval template_text_def Let_def)

text \<open>
  Claim C8, amended: in \<^verbatim>\<open>deleteMany\<close> with an edge configuration, the purge request
  issued after the chunk deletions names exactly the requested keys, in order: the keys
  derived from the requests, which are the keys of the batch-delete commands, whether or
  not the store reports them deleted. Each is prefixed with the configured origin (every
  key is defined, so the URL is the origin followed by the key). The request is issued
  once, when the chunk deletions have been joined successfully, and not at all otherwise.
\<close>

theorem purge_names_requested_keys:
  assumes "requests \<noteq> []" and "CFCache this = Some cf"
  shows "purges (snd (deleteMany sv this requests)) =
           (case fst (delete_chunks sv this requests) of
              Inl e \<Rightarrow> []
            | Inr d \<Rightarrow>
                [(CFCache_url cf,
                  purge_init cf
                    (PurgeFiles
                       (map (\<lambda>req. CFCache_origin cf @ template_text (getKey (Some req)))
                          requests)))])
         \<and> concat (sent_batches (snd (deleteMany sv this requests)))
             = map (\<lambda>req. ObjectIdentifier (getKey (Some req))) requests
         \<and> list_all (\<lambda>req. getKey (Some req) \<noteq> None) requests"
proof -
  have keys: "concat (sent_batches (snd (deleteMany sv this requests))) =
              map (\<lambda>req. ObjectIdentifier (getKey (Some req))) requests"
    unfolding deleteMany_sent_batches [OF assms(1)] by (rule delete_chunks_sent)
  have defined: "getKey (Some req) \<noteq> None" for req
    by (cases req) simp_all
  have "purges (snd (deleteMany sv this requests)) =
           (case fst (delete_chunks sv this requests) of
              Inl e \<Rightarrow> []
            | Inr d \<Rightarrow>
                [(CFCache_url cf,
                  purge_init cf
                    (PurgeFiles (map (\<lambda>req. CFCache_origin cf @ template_text (getKey (Some req)))
                            requests)))])"
    unfolding deleteMany_events [OF assms(1)] purges_append delete_chunks_purges
    using assms(2) by (simp split: sum.splits)
  with keys defined show ?thesis
    by (simp add: list_all_iff)
qed

theorem purge_names_requested_keys_witness:
  "[StringInput ''/a'', StringInput ''/b''] \<noteq> []
   \<and> CFCache demo_cache = Some \<lparr> CFCache_origin = ''https://example.com'',
                CFCache_url = ''https://api.cloudflare.com/client/v4/zones/z1/purge_cache'',
                CFCache_headers =
                  [(''Content-Type'', ''application/json''), (''Authorization'', ''Bearer t'')] \<rparr>
   \<and> purges (snd (deleteMany partial_delete_services demo_cache
                     [StringInput ''/a'', StringInput ''/b'']))
       = [(''https://api.cloudflare.com/client/v4/zones/z1/purge_cache'',
           \<lparr> init_method = ''POST'',
             init_headers =
               [(''Content-Type'', ''application/json''), (''Authorization'', ''Bearer t'')],
             init_body = PurgeFiles [''https://example.com/a'', ''https://example.com/b''] \<rparr>)]
   \<and> concat (sent_batches (snd (deleteMany partial_delete_services demo_cache
                     [StringInput ''/a'', StringInput ''/b''])))
       = [ObjectIdentifier (Some ''/a''), ObjectIdentifier (Some ''/b'')]"
proof -
  let ?cf = "\<lparr> CFCache_origin = ''https://example.com'',
                CFCache_url = ''https://api.cloudflare.com/client/v4/zones/z1/purge_cache'',
                CFCache_headers =
                  [(''Content-Type'', ''application/json''), (''Authorization'', ''Bearer t'')] \<rparr>"
  have ne: "[StringInput ''/a'', StringInput ''/b''] \<noteq> []"
    by simp
  have cf: "CFCache demo_cache = Some ?cf"
    by (simp add: demo_cache_eval)
  have joined: "fst (delete_chunks partial_delete_services demo_cache
                       [StringInput ''/a'', StringInput ''/b''])
                = Inr [DeletedObject (Some ''/b'')]"
    by (simp add: delete_chunks_def chunkArray.simps delete_commands_def Promise_all_def
        settle_order_def fulfilled_def List.map_filter_def partial_delete_services_def
        demo_services_def demo_cache_eval Let_def)
  from purge_names_requested_keys [OF ne cf, of partial_delete_services]
  have "purges (snd (deleteMany partial_delete_services demo_cache
                     [StringInput ''/a'', StringInput ''/b'']))
       = [(''https://api.cloudflare.com/client/v4/zones/z1/purge_cache'',
           \<lparr> init_method = ''POST'',
             init_headers =
               [(''Content-Type'', ''application/json''), (''Authorization'', ''Bearer t'')],
             init_body = PurgeFiles [''https://example.com/a'', ''https://example.com/b''] \<rparr>)]"
    and "concat (sent_batches (snd (deleteMany partial_delete_services demo_cache
                     [StringInput ''/a'', StringInput ''/b''])))
       = [ObjectIdentifier (Some ''/a''), ObjectIdentifier (Some ''/b'')]"
    by (simp_all add: joined purge_init_def template_text_def)
  with ne cf show ?thesis
    by blast
qed

lemma keys_events: "snd (keys sv this request) = [S3List (bucket this) (getKey request)]"
  by (simp add: keys_def Let_def split: sum.splits)

text \<open>
  Claim C1, as the specification states it, is false: with an edge configuration and a
  store that lists no keys, \<^verbatim>\<open>deleteAll\<close> should send no batch-delete command and still
  one purge-everything request. It sends no batch-delete command, and no purge request
  either: \<^verbatim>\<open>if (!keys.length) return []\<close> returns before the purge.
\<close>

theorem deleteAll_empty_store_counterexample:
  "CFCache demo_cache \<noteq> None
   \<and> fst (keys empty_store_services demo_cache None) = Inr []
   \<and> sent_batches (snd (deleteAll empty_store_services demo_cache)) = []
   \<and> length (purges (snd (deleteAll empty_store_services demo_cache))) \<noteq> 1"
  by (simp add: deleteAll_def keys_def page_objects_def List.map_filter_def
      empty_store_services_def demo_services_def demo_cache_eval Let_def)

text \<open>
  Claim C1, amended: whenever the listing yields no keys, \<^verbatim>\<open>deleteAll\<close> returns the empty
  list after the listing alone: it sends no batch-delete command and no purge request,
  with or without an edge configuration.
\<close>

theorem deleteAll_empty_store:
  assumes "fst (keys sv this None) = Inr []"
  shows "fst (deleteAll sv this) = Inr []
         \<and> snd (deleteAll sv this) = [S3List (bucket this) None]
         \<and> sent_batches (snd (deleteAll sv this)) = []
         \<and> purges (snd (deleteAll sv this)) = []"
proof -
  from assms keys_events [of sv this None]
  have "keys sv this None = (Inr [], [S3List (bucket this) None])"
    by (cases "keys sv this None") simp
  then show ?thesis
    by (simp add: deleteAll_def)
qed

theorem deleteAll_empty_store_witness:
  "fst (keys empty_store_services demo_cache None) = Inr []
   \<and> deleteAll empty_store_services demo_cache = (Inr [], [S3List ''cache'' None])"
proof -
  have none: "fst (keys empty_store_services demo_cache None) = Inr []"
    by (simp add: keys_def page_objects_def List.map_filter_def
      empty_store_services_def demo_services_def demo_cache_eval Let_def)
  from deleteAll_empty_store [OF none] have "deleteAll empty_store_services demo_cache =
      (Inr [], [S3List (bucket demo_cache) None])"
    by (cases "deleteAll empty_store_services demo_cache") simp
  with none show ?thesis
    by (simp add: demo_cache_eval)
qed

section \<open>The cache without an edge configuration\<close>

lemma edge_bucket: "bucket (without_edge opts) = bucket (with_edge opts c)"
  by (simp add: without_edge_def with_edge_def new_CloudflareR2Cache_def)

lemma edge_CFCache: "CFCache (without_edge opts) = None"
  by (simp add: without_edge_def new_CloudflareR2Cache_def)

lemma delete_chunks_bucket:
  assumes "bucket this = bucket this'"
  shows "delete_chunks sv this requests = delete_chunks sv this' requests"
  unfolding delete_chunks_def assms by (rule refl)

lemma keys_bucket:
  assumes "bucket this = bucket this'"
  shows "keys sv this request = keys sv this' request"
  unfolding keys_def assms by (rule refl)

lemma store_events_append: "store_events (xs @ ys) = store_events xs @ store_events ys"
  by (simp add: store_events_def)

lemma store_events_quiet:
  "list_all (\<lambda>ev. \<not> is_edge_event ev) evs \<Longrightarrow> store_events evs = evs"
  by (simp add: store_events_def list_all_iff)

lemma purges_quiet: "list_all (\<lambda>ev. \<not> is_edge_event ev) evs \<Longrightarrow> purges evs = []"
  by (induction evs rule: purges.induct) auto

lemma delete_chunks_quiet:
  "list_all (\<lambda>ev. \<not> is_edge_event ev) (snd (delete_chunks sv this requests))"
proof -
  obtain cmds settled where
    "snd (delete_chunks sv this requests) =
       map (\<lambda>(i, objs). S3DeleteSent i objs) (enumerate 0 cmds) @ settled"
    and "list_all (\<lambda>ev. \<not> is_edge_event ev) settled"
    using delete_chunks_shape [of requests sv this] by blast
  then show ?thesis
    using not_edge_sent [of 0 cmds] by simp
qed

lemma purge_result:
  "purge sv cf b = (fetch sv (CFCache_url cf) (purge_init cf b), [Fetch (CFCache_url cf) (purge_init cf b)])"
  by (simp add: purge_def)

lemma edge_CFCache_some: "\<exists>cf. CFCache (with_edge opts c) = Some cf"
  by (simp add: with_edge_def new_CloudflareR2Cache_def)

lemma store_events_purged:
  "store_events (snd (delete_chunks sv this requests) @ [Fetch u i]) =
   snd (delete_chunks sv this requests)"
  using delete_chunks_quiet [of sv this requests]
  by (simp add: store_events_append store_events_quiet) (simp add: store_events_def)

lemma deleteMany_frame:
  fixes opts c sv requests
  defines "off \<equiv> deleteMany sv (without_edge opts) requests"
    and "on \<equiv> deleteMany sv (with_edge opts c) requests"
  shows "purges (snd off) = []" and "store_events (snd off) = store_events (snd on)"
    and "fst off = fst on \<or> (\<exists>e u i. fetch sv u i = Inl e \<and> fst on = Inl e)"
proof -
  obtain cf where cf: "CFCache (with_edge opts c) = Some cf"
    using edge_CFCache_some by blast
  have same: "delete_chunks sv (without_edge opts) requests = delete_chunks sv (with_edge opts c) requests"
    by (rule delete_chunks_bucket) (rule edge_bucket)
  obtain res evs where dc: "delete_chunks sv (with_edge opts c) requests = (res, evs)"
    by (cases "delete_chunks sv (with_edge opts c) requests")
  have quiet: "list_all (\<lambda>ev. \<not> is_edge_event ev) evs"
    using delete_chunks_quiet [of sv "with_edge opts c" requests] dc by simp
  have off: "off = (if requests = [] then (Inr [], []) else (res, evs))"
    unfolding off_def using same dc edge_CFCache [of opts]
    by (cases res) (simp_all add: deleteMany_def Let_def)
  show "purges (snd off) = []"
    using quiet by (simp add: off purges_quiet)
  show "store_events (snd off) = store_events (snd on)"
    unfolding off on_def using dc cf quiet
    by (cases res)
      (auto simp: deleteMany_def Let_def purge_def store_events_append store_events_quiet
        store_events_def split: sum.splits)
  show "fst off = fst on \<or> (\<exists>e u i. fetch sv u i = Inl e \<and> fst on = Inl e)"
    unfolding off on_def using dc cf
    by (cases res) (auto simp: deleteMany_def Let_def purge_def split: sum.splits)
qed

lemma deleteAll_frame:
  fixes opts c sv
  defines "off \<equiv> deleteAll sv (without_edge opts)"
    and "on \<equiv> deleteAll sv (with_edge opts c)"
  shows "purges (snd off) = []" and "store_events (snd off) = store_events (snd on)"
    and "fst off = fst on \<or> (\<exists>e u i. fetch sv u i = Inl e \<and> fst on = Inl e)"
proof -
  obtain cf where cf: "CFCache (with_edge opts c) = Some cf"
    using edge_CFCache_some by blast
  have ks: "keys sv (without_edge opts) None = keys sv (with_edge opts c) None"
    by (rule keys_bucket) (rule edge_bucket)
  have same: "delete_chunks sv (without_edge opts) rs = delete_chunks sv (with_edge opts c) rs" for rs
    by (rule delete_chunks_bucket) (rule edge_bucket)
  obtain kres kevs where k: "keys sv (with_edge opts c) None = (kres, kevs)"
    by (cases "keys sv (with_edge opts c) None")
  have kevs: "kevs = [S3List (bucket (with_edge opts c)) None]"
    using keys_events [of sv "with_edge opts c" None] k by simp
  show "purges (snd off) = []"
  proof (cases kres)
    case (Inl e)
    then show ?thesis
      unfolding off_def using ks k kevs by (simp add: deleteAll_def)
  next
    case (Inr found)
    obtain res evs where dc: "delete_chunks sv (with_edge opts c) (map StringInput found) = (res, evs)"
      by (cases "delete_chunks sv (with_edge opts c) (map StringInput found)")
    have "purges evs = []"
      using delete_chunks_purges [of sv "with_edge opts c" "map StringInput found"] dc by simp
    then show ?thesis
      unfolding off_def using ks k kevs Inr dc same edge_CFCache [of opts]
      by (cases res) (simp_all add: deleteAll_def purges_append)
  qed
  show "store_events (snd off) = store_events (snd on)"
  proof (cases kres)
    case (Inl e)
    then show ?thesis
      unfolding off_def on_def using ks k by (simp add: deleteAll_def)
  next
    case (Inr found)
    obtain res evs where dc: "delete_chunks sv (with_edge opts c) (map StringInput found) = (res, evs)"
      by (cases "delete_chunks sv (with_edge opts c) (map StringInput found)")
    then show ?thesis
      unfolding off_def on_def using ks k Inr same edge_CFCache [of opts] cf
      by (cases res)
        (auto simp: deleteAll_def purge_def store_events_def split: sum.splits)
  qed
  show "fst off = fst on \<or> (\<exists>e u i. fetch sv u i = Inl e \<and> fst on = Inl e)"
  proof (cases kres)
    case (Inl e)
    then show ?thesis
      unfolding off_def on_def using ks k by (simp add: deleteAll_def)
  next
    case (Inr found)
    obtain res evs where dc: "delete_chunks sv (with_edge opts c) (map StringInput found) = (res, evs)"
      by (cases "delete_chunks sv (with_edge opts c) (map StringInput found)")
    then show ?thesis
      unfolding off_def on_def using ks k Inr same edge_CFCache [of opts] cf
      by (cases res) (auto simp: deleteAll_def purge_def split: sum.splits)
  qed
qed


text \<open>
  Claim C9, as the specification states it, is false in one respect: without an edge
  configuration the return values should be identical to the configured case. When the
  purge request fails, the configured \<^verbatim>\<open>deleteMany\<close> throws the failure after the
  deletion, while the unconfigured one returns the deleted objects.
\<close>

theorem without_edge_config_counterexample:
  "fst (deleteMany failing_edge_services (without_edge demo_options) [StringInput ''/a''])
     = Inr [DeletedObject (Some ''/a'')]
   \<and> fst (deleteMany failing_edge_services
          (with_edge demo_options
             \<lparr> origin = ''https://example.com'', zoneId = ''z1'', apiToken = ''t'' \<rparr>)
          [StringInput ''/a''])
     = Inl (PurgeError ''network'')"
  by (simp add: deleteMany_def delete_chunks_def chunkArray.simps delete_commands_def
      Promise_all_def settle_order_def fulfilled_def List.map_filter_def purge_def purge_init_def
      failing_edge_services_def demo_services_def without_edge_def with_edge_def demo_options_def
      new_CloudflareR2Cache_def template_text_def Let_def)

text \<open>
  Claim C9, amended: for every configuration constructed without an edge configuration,
  \<^verbatim>\<open>deleteMany\<close>, \<^verbatim>\<open>delete\<close> and \<^verbatim>\<open>deleteAll\<close> make no edge request, and their calls to
  the origin store are those of the configured case; their result is the configured
  case's result, unless the configured case throws the failure of its purge request.
  \<^verbatim>\<open>keys\<close>, \<^verbatim>\<open>match\<close> and \<^verbatim>\<open>put\<close> behave identically in both cases, in result,
  store and calls.
\<close>

theorem without_edge_config_frame:
  "purges (snd (deleteMany sv (without_edge opts) requests)) = []
   \<and> purges (snd (delete sv (without_edge opts) request)) = []
   \<and> purges (snd (deleteAll sv (without_edge opts))) = []
   \<and> store_events (snd (deleteMany sv (without_edge opts) requests))
       = store_events (snd (deleteMany sv (with_edge opts c) requests))
   \<and> store_events (snd (delete sv (without_edge opts) request))
       = store_events (snd (delete sv (with_edge opts c) request))
   \<and> store_events (snd (deleteAll sv (without_edge opts)))
       = store_events (snd (deleteAll sv (with_edge opts c)))
   \<and> (fst (deleteMany sv (without_edge opts) requests)
         = fst (deleteMany sv (with_edge opts c) requests)
       \<or> (\<exists>e u i. fetch sv u i = Inl e
             \<and> fst (deleteMany sv (with_edge opts c) requests) = Inl e))
   \<and> (fst (delete sv (without_edge opts) request) = fst (delete sv (with_edge opts c) request)
       \<or> (\<exists>e u i. fetch sv u i = Inl e \<and> fst (delete sv (with_edge opts c) request) = Inl e))
   \<and> (fst (deleteAll sv (without_edge opts)) = fst (deleteAll sv (with_edge opts c))
       \<or> (\<exists>e u i. fetch sv u i = Inl e \<and> fst (deleteAll sv (with_edge opts c)) = Inl e))
   \<and> keys sv (without_edge opts) prefix = keys sv (with_edge opts c) prefix
   \<and> match rt sv (without_edge opts) store request
       = match rt sv (with_edge opts c) store request
   \<and> put rt sv (without_edge opts) store request resp
       = put rt sv (with_edge opts c) store request resp"
proof -
  have "keys sv (without_edge opts) prefix = keys sv (with_edge opts c) prefix"
    by (rule keys_bucket) (rule edge_bucket)
  moreover have "match rt sv (without_edge opts) store request
      = match rt sv (with_edge opts c) store request"
    by (simp add: match_def)
  moreover have "put rt sv (without_edge opts) store request resp
      = put rt sv (with_edge opts c) store request resp"
    by (simp add: put_def)
  moreover have many:
    "purges (snd (deleteMany sv (without_edge opts) rs)) = []"
    "store_events (snd (deleteMany sv (without_edge opts) rs))
       = store_events (snd (deleteMany sv (with_edge opts c) rs))"
    "fst (deleteMany sv (without_edge opts) rs) = fst (deleteMany sv (with_edge opts c) rs)
       \<or> (\<exists>e u i. fetch sv u i = Inl e \<and> fst (deleteMany sv (with_edge opts c) rs) = Inl e)"
    for rs
    by (rule deleteMany_frame)+
  moreover have
    "purges (snd (deleteAll sv (without_edge opts))) = []"
    "store_events (snd (deleteAll sv (without_edge opts)))
       = store_events (snd (deleteAll sv (with_edge opts c)))"
    "fst (deleteAll sv (without_edge opts)) = fst (deleteAll sv (with_edge opts c))
       \<or> (\<exists>e u i. fetch sv u i = Inl e \<and> fst (deleteAll sv (with_edge opts c)) = Inl e)"
    by (rule deleteAll_frame)+
  ultimately show ?thesis
    unfolding delete_def using many [of requests] many [of "[request]"]
    by blast
qed

theorem without_edge_config_frame_witness:
  "purges (snd (deleteMany demo_services (without_edge demo_options) [StringInput ''/a''])) = []
   \<and> deleteMany demo_services (without_edge demo_options) [StringInput ''/a'']
       = (Inr [DeletedObject (Some ''/a'')],
          [S3DeleteSent 0 [ObjectIdentifier (Some ''/a'')], Settled 0 True])
   \<and> store_events (snd (deleteMany demo_services demo_cache [StringInput ''/a'']))
       = [S3DeleteSent 0 [ObjectIdentifier (Some ''/a'')], Settled 0 True]"
proof -
  have off: "deleteMany demo_services (without_edge demo_options) [StringInput ''/a'']
       = (Inr [DeletedObject (Some ''/a'')],
          [S3DeleteSent 0 [ObjectIdentifier (Some ''/a'')], Settled 0 True])"
    by (simp add: deleteMany_def delete_chunks_def chunkArray.simps delete_commands_def
      Promise_all_def settle_order_def fulfilled_def List.map_filter_def
      demo_services_def without_edge_def demo_options_def
      new_CloudflareR2Cache_def Let_def)
  have on: "demo_cache = with_edge demo_options
             \<lparr> origin = ''https://example.com'', zoneId = ''z1'', apiToken = ''t'' \<rparr>"
    by (simp add: demo_cache_def with_edge_def demo_options_def)
  from without_edge_config_frame [where sv = demo_services and opts = demo_options
      and requests = "[StringInput ''/a'']"
      and c = "\<lparr> origin = ''https://example.com'', zoneId = ''z1'', apiToken = ''t'' \<rparr>"]
  have quiet: "purges (snd (deleteMany demo_services (without_edge demo_options) [StringInput ''/a''])) = []"
    and same: "store_events (snd (deleteMany demo_services (without_edge demo_options) [StringInput ''/a'']))
       = store_events (snd (deleteMany demo_services demo_cache [StringInput ''/a'']))"
    unfolding on by blast+
  have "store_events (snd (deleteMany demo_services demo_cache [StringInput ''/a'']))
       = store_events (snd (deleteMany demo_services (without_edge demo_options) [StringInput ''/a'']))"
    by (rule same [symmetric])
  also have "\<dots> = [S3DeleteSent 0 [ObjectIdentifier (Some ''/a'')], Settled 0 True]"
    by (simp add: off store_events_def)
  finally show ?thesis
    using quiet off by blast
qed

section \<open>Inputs that give no key\<close>

text \<open>
  \<^verbatim>\<open>match\<close> and \<^verbatim>\<open>put\<close> check the key: with no key they throw before any call to the
  store, and the bucket is unchanged.
\<close>

lemma no_key_match_put:
  assumes "or_undefined (getKey (Some request)) = None"
  shows "match rt sv this store request = (Inl invalid_key, [])"
    and "put rt sv this store request resp = (Inl invalid_key, store, [])"
  using assms by (simp_all add: match_def put_def)

text \<open>
  \<^verbatim>\<open>deleteMany\<close> makes no such check. For the request \<^verbatim>\<open>""\<close>, from which no key is
  derivable, the first thing it does, whatever the services answer, is to send a
  batch-delete command with the empty key.
\<close>

lemma deleteMany_sends_first:
  "\<exists>rest. snd (deleteMany sv this [StringInput []]) = S3DeleteSent 0 [ObjectIdentifier (Some [])] # rest"
proof -
  have chunks: "chunkArray [StringInput []] 1000 = Some [[StringInput []]]"
    by (simp add: chunkArray.simps)
  have "\<exists>rest. snd (delete_chunks sv this [StringInput []])
      = S3DeleteSent 0 [ObjectIdentifier (Some [])] # rest"
    by (simp add: delete_chunks_def chunks delete_commands_def Let_def
        split: prod.splits sum.splits)
  then show ?thesis
    by (auto simp: deleteMany_events)
qed

text \<open>
  Claim C3 says that every operation, \<^verbatim>\<open>delete\<close> and \<^verbatim>\<open>deleteMany\<close> included, throws
  the invalid-key error before any I/O when no key is derivable. The code run on the
  request \<^verbatim>\<open>""\<close>: it sends the batch-delete command, purges the bare origin, and returns
  what the store reports deleted.
\<close>

theorem deleteMany_sends_empty_key:
  "or_undefined (getKey (Some (StringInput []))) = None
   \<and> deleteMany demo_services demo_cache [StringInput []] =
     (Inr [DeletedObject (Some [])],
      [S3DeleteSent 0 [ObjectIdentifier (Some [])],
       Settled 0 True,
       Fetch ''https://api.cloudflare.com/client/v4/zones/z1/purge_cache''
         \<lparr> init_method = ''POST'',
           init_headers =
             [(''Content-Type'', ''application/json''), (''Authorization'', ''Bearer t'')],
           init_body = PurgeFiles [''https://example.com''] \<rparr>])
   \<and> delete demo_services demo_cache (StringInput [])
       = deleteMany demo_services demo_cache [StringInput []]"
  by (simp add: delete_def deleteMany_def delete_chunks_def chunkArray.simps delete_commands_def
      Promise_all_def settle_order_def fulfilled_def List.map_filter_def purge_def purge_init_def
      demo_services_def demo_cache_eval template_text_def or_undefined_def truthy_def Let_def)

section \<open>Numbers printed and parsed\<close>

text \<open>
  The decimal digits of a number are digits of radix 10, none of them white space, a sign
  or the \<^verbatim>\<open>x\<close> of a hexadecimal prefix, so \<^verbatim>\<open>parseInt\<close> reads the whole text.
\<close>

lemma digit_value_table:
  "map digit_value digit_chars = map Some [0 ..< 10]"
  by (simp add: digit_chars_def digit_value_def upt_rec)

lemma digit_chars_nth:
  assumes "d < 10"
  shows "digit_chars ! d \<in> set digit_chars" and "digit_value (digit_chars ! d) = Some d"
proof -
  have len: "length digit_chars = 10"
    by (simp add: digit_chars_def)
  with assms show "digit_chars ! d \<in> set digit_chars"
    by simp
  have "digit_value (digit_chars ! d) = map digit_value digit_chars ! d"
    using assms len by simp
  also have "\<dots> = Some d"
    unfolding digit_value_table using assms by simp
  finally show "digit_value (digit_chars ! d) = Some d" .
qed

lemma decimal_digits_all:
  "list_all (\<lambda>c. is_radix_digit 10 c \<and> \<not> is_white_space c \<and> c \<noteq> CHR ''-'' \<and> c \<noteq> CHR ''+''
      \<and> c \<noteq> CHR ''x'' \<and> c \<noteq> CHR ''X'') digit_chars"
  by (simp add: digit_chars_def is_radix_digit_def digit_value_def is_white_space_def)

lemma decimal_digit:
  assumes "c \<in> set digit_chars"
  shows "is_radix_digit 10 c" and "\<not> is_white_space c" and "c \<noteq> CHR ''-''" and "c \<noteq> CHR ''+''"
    and "c \<noteq> CHR ''x''" and "c \<noteq> CHR ''X''"
  using assms decimal_digits_all unfolding list_all_iff by blast+

lemma nat_digits_decimal: "set (nat_digits n) \<subseteq> set digit_chars"
proof (induction n rule: nat_digits.induct)
  case (1 n)
  show ?case
  proof (cases "n < 10")
    case True
    then show ?thesis
      using digit_chars_nth(1) [of n] by (subst nat_digits.simps) simp
  next
    case False
    then show ?thesis
      using 1 digit_chars_nth(1) [of "n mod 10"] by (subst nat_digits.simps) simp
  qed
qed

lemma nat_digits_nonempty: "nat_digits n \<noteq> []"
  by (subst nat_digits.simps) simp

lemma nat_digits_value: "foldl (\<lambda>a c. a * 10 + digit_of c) 0 (nat_digits n) = n"
proof (induction n rule: nat_digits.induct)
  case (1 n)
  show ?case
  proof (cases "n < 10")
    case True
    then show ?thesis
      using digit_chars_nth(2) [of n] by (subst nat_digits.simps) (simp add: digit_of_def)
  next
    case False
    then show ?thesis
      using 1 digit_chars_nth(2) [of "n mod 10"]
      by (subst nat_digits.simps) (simp add: digit_of_def)
  qed
qed

lemma parse_digits:
  assumes "set S \<subseteq> set digit_chars" and "S \<noteq> []"
  shows "dropWhile is_white_space S = S" and "strip_sign S = (1, S)" and "strip_prefix S = (10, S)"
    and "takeWhile (is_radix_digit 10) S = S"
proof -
  obtain c r where S: "S = c # r"
    using assms(2) by (cases S) auto
  with assms(1) have c: "c \<in> set digit_chars"
    by simp
  show "dropWhile is_white_space S = S"
    using decimal_digit(2) [OF c] by (simp add: S)
  show "strip_sign S = (1, S)"
    using decimal_digit(3,4) [OF c] by (simp add: S strip_sign_def)
  show "takeWhile (is_radix_digit 10) S = S"
    using assms(1) decimal_digit(1) by (auto simp: takeWhile_eq_all_conv)
  show "strip_prefix S = (10, S)"
  proof (cases r)
    case Nil
    then show ?thesis by (simp add: S strip_prefix_def)
  next
    case (Cons c' r')
    with assms(1) S have "c' \<in> set digit_chars"
      by simp
    from decimal_digit(5,6) [OF this] show ?thesis
      by (simp add: S Cons strip_prefix_def)
  qed
qed

lemma parseInt_nat_digits: "parseInt (nat_digits n) = Num (int n)"
  by (simp add: parseInt_def Let_def parse_digits [OF nat_digits_decimal nat_digits_nonempty]
      nat_digits_value nat_digits_nonempty)

lemma parseInt_minus: "parseInt (CHR ''-'' # nat_digits n) = Num (- int n)"
  by (simp add: parseInt_def Let_def strip_sign_def is_white_space_def
      parse_digits(3,4) [OF nat_digits_decimal nat_digits_nonempty]
      nat_digits_value nat_digits_nonempty)

text \<open>Printing a number and parsing the text gives the number back.\<close>

lemma parseInt_toString: "parseInt (Number_toString x) = x"
proof (cases x)
  case (Num i)
  then show ?thesis
    by (simp add: Number_toString_def parseInt_nat_digits parseInt_minus)
next
  case NaN
  then show ?thesis
    by (simp add: Number_toString_def parseInt_def strip_sign_def strip_prefix_def
        is_white_space_def is_radix_digit_def digit_value_def)
qed

lemma toString_nonempty: "Number_toString x \<noteq> []"
  by (cases x) (simp_all add: Number_toString_def nat_digits_nonempty)

lemma nat_digits_step: "10 \<le> n \<Longrightarrow> nat_digits n = nat_digits (n div 10) @ [digit_chars ! (n mod 10)]"
  by (subst nat_digits.simps) simp

lemma nat_digits_base: "n < 10 \<Longrightarrow> nat_digits n = [digit_chars ! n]"
  by (subst nat_digits.simps) simp

lemma one_year: "Number_toString (Num 31536000) = ''31536000''"
  by (simp add: Number_toString_def nat_digits_step nat_digits_base digit_chars_def)


section \<open>\<^verbatim>\<open>match\<close> after \<^verbatim>\<open>put\<close>\<close>

lemma lower_computed:
  "lower ''etag'' = ''etag''"
  "lower ''Content-Length'' = ''content-length''"
  "lower ''Last-Modified'' = ''last-modified''"
  "lower ''CDN-Cache-Control'' = ''cdn-cache-control''"
  by (simp_all add: lower_def ascii_lower_def)

text \<open>On a header value, \<^verbatim>\<open>set\<close> is the plain update.\<close>

lemma strip_header_value: "header_value v \<Longrightarrow> strip_white_space v = v"
proof (cases v)
  case Nil
  then show ?thesis
    by (simp add: strip_white_space_def)
next
  case (Cons c r)
  assume "header_value v"
  with Cons have first: "\<not> http_white_space c" and final: "\<not> http_white_space (last v)"
    by (simp_all add: header_value_def)
  from Cons have "rev v \<noteq> []" and "hd (rev v) = last v"
    by (simp_all add: hd_rev)
  with final have "dropWhile http_white_space (rev v) = rev v"
    by (simp add: dropWhile_eq_self_iff)
  moreover from first Cons have "dropWhile http_white_space v = v"
    by simp
  ultimately show ?thesis
    by (simp add: strip_white_space_def)
qed

lemma Headers_set_header_value:
  "header_value v \<Longrightarrow> Headers_set_text h name v = Inr (Headers_set h name v)"
  by (simp add: Headers_set_text_def strip_header_value)

lemma Headers_set_other_text:
  "Headers_set_text Map.empty ''etag'' '' abc '' = Inr [''etag'' \<mapsto> ''abc'']"
  "Headers_set_text Map.empty ''etag'' [CHR ''a'', CHR 0x0A, CHR ''b'']
     = Inl (TypeError ''invalid header value'')"
  by (simp_all add: Headers_set_text_def strip_white_space_def http_white_space_def
      header_value_def Headers_set_def lower_def ascii_lower_def)

text \<open>When the \<^verbatim>\<open>Response\<close> constructor returns, and what it returns.\<close>

lemma new_Response_returns:
  "(\<exists>r. new_Response body hdrs st phrase = Inr r) \<longleftrightarrow>
     200 \<le> ToUint16 st \<and> ToUint16 st \<le> 599 \<and> list_all reason_phrase_char phrase
     \<and> (body \<noteq> None \<longrightarrow> \<not> null_body_status (ToUint16 st))"
  by (auto simp: new_Response_def Let_def list_ex_iff list_all_iff)

lemma new_Response_fields:
  assumes "new_Response body hdrs st phrase = Inr r"
  shows "resp_body r = body" and "resp_headers r = hdrs" and "status r = ToUint16 st"
    and "statusText r = phrase"
  using assms by (auto simp: new_Response_def Let_def split: if_splits)

text \<open>
  What \<^verbatim>\<open>match\<close> does for a stored object: one \<^verbatim>\<open>get\<close>, then the failure of the
  \<^verbatim>\<open>get\<close>, the error of the constructor, or the constructed response.
\<close>

lemma match_hit:
  assumes "or_undefined (getKey (Some request)) = Some key" and "store key = Some object"
  shows "match rt sv this store request =
    (case r2_get_fault sv key of
       Some e \<Rightarrow> (Inl e, [R2Get key])
     | None \<Rightarrow>
         (case new_Response (r2_body object)
                 ((parseHTTPMetadata rt (httpMetadata object))
                    (''etag'' \<mapsto> httpEtag object,
                     ''content-length'' \<mapsto> Number_toString (Num (int (r2_size object))),
                     ''last-modified'' \<mapsto> toUTCString rt (uploaded object),
                     ''cdn-cache-control'' \<mapsto> ''public, max-age=31536000''))
                 (stored_status object) (stored_statusText object) of
            Inl e \<Rightarrow> (Inl e, [R2Get key])
          | Inr r \<Rightarrow> (Inr (Some r), [R2Get key])))"
  using assms
  by (simp add: match_def R2_get_def Let_def Headers_set_def lower_computed one_year
      split: option.splits)

text \<open>
  Claim C7: for every stored entry, the response \<^verbatim>\<open>match\<close> returns carries the headers
  parsed from the entry's \<^verbatim>\<open>httpMetadata\<close> plus four computed ones: the store's
  fingerprint as \<^verbatim>\<open>ETag\<close>, the stored size as \<^verbatim>\<open>Content-Length\<close>, the upload time as
  \<^verbatim>\<open>Last-Modified\<close>, and \<^verbatim>\<open>CDN-Cache-Control: public, max-age=31536000\<close> on every
  hit, whatever the entry's own caching directives are. \<^verbatim>\<open>match\<close> returns a response
  for the entry exactly when the \<^verbatim>\<open>get\<close> does not fail and the constructor accepts the
  entry's status, status text and body. The entry's texts are taken to be header values.
\<close>

theorem match_headers:
  assumes "or_undefined (getKey (Some request)) = Some key" and "store key = Some object"
    and "list_all header_value (stored_header_texts rt object)"
  shows "(\<forall>r. fst (match rt sv this store request) = Inr (Some r) \<longrightarrow>
            resp_headers r =
              (parseHTTPMetadata rt (httpMetadata object))
                (''etag'' \<mapsto> httpEtag object,
                 ''content-length'' \<mapsto> Number_toString (Num (int (r2_size object))),
                 ''last-modified'' \<mapsto> toUTCString rt (uploaded object),
                 ''cdn-cache-control'' \<mapsto> ''public, max-age=31536000''))
         \<and> ((\<exists>r. match rt sv this store request = (Inr (Some r), [R2Get key])) \<longleftrightarrow>
              r2_get_fault sv key = None
              \<and> 200 \<le> ToUint16 (stored_status object) \<and> ToUint16 (stored_status object) \<le> 599
              \<and> list_all reason_phrase_char (stored_statusText object)
              \<and> (r2_body object \<noteq> None \<longrightarrow> \<not> null_body_status (ToUint16 (stored_status object))))"
proof -
  let ?H = "(parseHTTPMetadata rt (httpMetadata object))
                (''etag'' \<mapsto> httpEtag object,
                 ''content-length'' \<mapsto> Number_toString (Num (int (r2_size object))),
                 ''last-modified'' \<mapsto> toUTCString rt (uploaded object),
                 ''cdn-cache-control'' \<mapsto> ''public, max-age=31536000'')"
  let ?new = "new_Response (r2_body object) ?H (stored_status object) (stored_statusText object)"
  note hit = match_hit [of request key store object rt sv this, OF assms(1,2)]
  have headers: "resp_headers r = ?H" if "fst (match rt sv this store request) = Inr (Some r)" for r
  proof -
    from that have "?new = Inr r"
      unfolding hit by (auto split: option.splits sum.splits)
    then show ?thesis
      by (rule new_Response_fields)
  qed
  have "(\<exists>r. match rt sv this store request = (Inr (Some r), [R2Get key])) \<longleftrightarrow>
        r2_get_fault sv key = None \<and> (\<exists>r. ?new = Inr r)"
    unfolding hit by (auto split: option.splits sum.splits)
  then show ?thesis
    unfolding new_Response_returns using headers by blast
qed

text \<open>
  The status and the status text of a response that \<^verbatim>\<open>match\<close> returns are those of the
  custom metadata, when these are truthy, and the default otherwise.
\<close>

lemma match_status:
  assumes "or_undefined (getKey (Some request)) = Some key" and "store key = Some object"
    and "fst (match rt sv this store request) = Inr (Some r)"
  shows "status r = ToUint16 (stored_status object)"
    and "statusText r = stored_statusText object"
    and "resp_body r = r2_body object"
proof -
  from assms(3) have
    "\<exists>hdrs. new_Response (r2_body object) hdrs (stored_status object) (stored_statusText object)
        = Inr r"
    unfolding match_hit [of request key store object rt sv this, OF assms(1,2)]
    by (auto split: option.splits sum.splits)
  then obtain hdrs where
    "new_Response (r2_body object) hdrs (stored_status object) (stored_statusText object) = Inr r"
    by blast
  then show "status r = ToUint16 (stored_status object)"
    and "statusText r = stored_statusText object"
    and "resp_body r = r2_body object"
    by (simp_all add: new_Response_fields)
qed

text \<open>
  A stored status that the constructor refuses: an object with a body whose custom
  metadata give the status code 204, and one whose status code is not a number.
\<close>

lemma match_refused_status:
  "match demo_runtime demo_services demo_cache
     [''/blog/post-1'' \<mapsto> demo_object \<lparr> customMetadata := Some [''statusCode'' \<mapsto> ''204''] \<rparr>]
     (StringInput ''/blog/post-1'')
   = (Inl (TypeError ''response with null body status cannot have body''), [R2Get ''/blog/post-1''])"
  "match demo_runtime demo_services demo_cache
     [''/blog/post-1'' \<mapsto> demo_object \<lparr> customMetadata := Some [''statusCode'' \<mapsto> ''abc''] \<rparr>]
     (StringInput ''/blog/post-1'')
   = (Inl (RangeError ''status out of range''), [R2Get ''/blog/post-1''])"
proof -
  have k: "or_undefined (getKey (Some (StringInput ''/blog/post-1''))) = Some ''/blog/post-1''"
    by (simp add: or_undefined_def truthy_def)
  have n: "parseInt ''204'' = Num 204"
    using parseInt_nat_digits [of 204]
    by (simp add: nat_digits_step nat_digits_base digit_chars_def)
  have a: "parseInt ''abc'' = NaN"
    by (simp add: parseInt_def strip_sign_def strip_prefix_def is_white_space_def
        is_radix_digit_def digit_value_def Let_def)
  show "match demo_runtime demo_services demo_cache
     [''/blog/post-1'' \<mapsto> demo_object \<lparr> customMetadata := Some [''statusCode'' \<mapsto> ''204''] \<rparr>]
     (StringInput ''/blog/post-1'')
   = (Inl (TypeError ''response with null body status cannot have body''), [R2Get ''/blog/post-1''])"
    by (simp add: match_hit [OF k] demo_services_def demo_object_def new_Response_def
        stored_status_def stored_statusText_def custom_field_def or_undefined_def truthy_def n
        ToUint16_def null_body_status_def Let_def)
  show "match demo_runtime demo_services demo_cache
     [''/blog/post-1'' \<mapsto> demo_object \<lparr> customMetadata := Some [''statusCode'' \<mapsto> ''abc''] \<rparr>]
     (StringInput ''/blog/post-1'')
   = (Inl (RangeError ''status out of range''), [R2Get ''/blog/post-1''])"
    by (simp add: match_hit [OF k] demo_services_def demo_object_def new_Response_def
        stored_status_def stored_statusText_def custom_field_def or_undefined_def truthy_def a
        ToUint16_def Let_def)
qed

text \<open>
  What \<^verbatim>\<open>put\<close> does with a key: one \<^verbatim>\<open>put\<close> to the store, which throws, leaving the
  bucket as it was, when the \<^verbatim>\<open>Expires\<close> header does not parse or the store fails, and
  otherwise stores the body with the serialised headers, the printed status and the status
  text.
\<close>

lemma put_refused:
  assumes "or_undefined (getKey (Some request)) = Some key"
    and "cacheExpiry (serializeHTTPMetadata rt (resp_headers resp)) = Some InvalidDate"
  shows "put rt sv this store request resp = (Inl (TypeError ''invalid date''), store, [R2Put key])"
  using assms by (simp add: put_def R2_put_def Let_def)

lemma put_store_failure:
  assumes "or_undefined (getKey (Some request)) = Some key"
    and "r2_put_answer sv key (arrayBuffer resp) = Inl e"
  shows "\<exists>e'. put rt sv this store request resp = (Inl e', store, [R2Put key])"
  using assms by (simp add: put_def R2_put_def Let_def)

lemma put_stores:
  assumes "or_undefined (getKey (Some request)) = Some key"
    and "cacheExpiry (serializeHTTPMetadata rt (resp_headers resp)) \<noteq> Some InvalidDate"
    and "r2_put_answer sv key (arrayBuffer resp) = Inr stamp"
  shows "\<exists>object.
           put rt sv this store request resp
             = (Inr (object \<lparr> r2_body := None \<rparr>), store(key \<mapsto> object), [R2Put key])
           \<and> httpMetadata object = Some (serializeHTTPMetadata rt (resp_headers resp))
           \<and> custom_field object ''statusCode'' = Some (Number_toString (Num (int (status resp))))
           \<and> custom_field object ''statusText'' = Some (statusText resp)
           \<and> r2_body object = Some (arrayBuffer resp)
           \<and> r2_size object = length (arrayBuffer resp)"
proof -
  obtain etag time where stamp: "stamp = (etag, time)"
    by (cases stamp)
  let ?object = "\<lparr> r2_key = key, r2_size = length (arrayBuffer resp),
                   httpEtag = CHR 0x22 # etag @ [CHR 0x22], uploaded = time,
                   httpMetadata = Some (serializeHTTPMetadata rt (resp_headers resp)),
                   customMetadata =
                     Some [''statusCode'' \<mapsto> Number_toString (Num (int (status resp))),
                           ''statusText'' \<mapsto> statusText resp],
                   r2_body = Some (arrayBuffer resp) \<rparr>"
  have "put rt sv this store request resp
          = (Inr (?object \<lparr> r2_body := None \<rparr>), store(key \<mapsto> ?object), [R2Put key])"
    using assms by (simp add: put_def R2_put_def Let_def stamp)
  moreover have "custom_field ?object ''statusCode''
      = Some (Number_toString (Num (int (status resp))))"
    and "custom_field ?object ''statusText'' = Some (statusText resp)"
    by (simp_all add: custom_field_def)
  ultimately show ?thesis
    by (intro exI [of _ ?object]) simp
qed

lemma put_refuses_unparseable_expires:
  "put demo_runtime demo_services demo_cache Map.empty (StringInput ''/a'')
     (demo_response \<lparr> resp_headers := [''expires'' \<mapsto> ''garbage''] \<rparr>)
   = (Inl (TypeError ''invalid date''), Map.empty, [R2Put ''/a''])"
proof -
  have k: "or_undefined (getKey (Some (StringInput ''/a''))) = Some ''/a''"
    by (simp add: or_undefined_def truthy_def)
  show ?thesis
    by (rule put_refused [OF k])
      (simp add: serialize_fields or_undefined_def truthy_def demo_runtime_def)
qed

text \<open>The status \<^verbatim>\<open>match\<close> reads from an object that \<^verbatim>\<open>put\<close> stored.\<close>

lemma stored_status_put:
  assumes "custom_field object ''statusCode'' = Some (Number_toString (Num (int s)))"
    and "s \<le> 599"
  shows "ToUint16 (stored_status object) = s"
proof -
  have "or_undefined (custom_field object ''statusCode'') = Some (Number_toString (Num (int s)))"
    unfolding assms(1) by (simp add: or_undefined_def truthy_def toString_nonempty)
  then have "stored_status object = Num (int s)"
    by (simp add: stored_status_def parseInt_toString)
  with assms(2) show ?thesis
    by (simp add: ToUint16_def)
qed

lemma stored_statusText_put:
  assumes "custom_field object ''statusText'' = Some t"
  shows "stored_statusText object = t"
  using assms by (simp add: stored_statusText_def or_undefined_def truthy_def)

text \<open>
  Claim C5: a response stored with \<^verbatim>\<open>put\<close> under a key and matched on the same key comes
  back with the status and the status text it was stored with (404 and \<^verbatim>\<open>Not Found\<close> in
  particular), not with the default 200 or 304: the \<^verbatim>\<open>statusCode\<close> and \<^verbatim>\<open>statusText\<close>
  of the custom metadata override the default. This is so whenever the store accepts the
  \<^verbatim>\<open>put\<close> (the \<^verbatim>\<open>Expires\<close> header, if any, parses, and the store does not fail), the
  \<^verbatim>\<open>get\<close> does not fail, and the status is one a response with a body can be constructed
  with: in 200..599 and none of 204, 205 and 304. Then \<^verbatim>\<open>put\<close> returns, having made one
  call to the store, and \<^verbatim>\<open>match\<close> returns the response after one call.
\<close>

theorem status_fidelity:
  assumes "or_undefined (getKey (Some request)) = Some key"
    and "getKey (Some request') = Some key"
    and "cacheExpiry (serializeHTTPMetadata rt (resp_headers resp)) \<noteq> Some InvalidDate"
    and "r2_put_answer sv key (arrayBuffer resp) = Inr stamp"
    and "r2_get_fault sv key = None"
    and "200 \<le> status resp" and "status resp \<le> 599" and "\<not> null_body_status (status resp)"
    and "list_all reason_phrase_char (statusText resp)"
  shows "\<exists>d store' r.
           put rt sv this store request resp = (Inr d, store', [R2Put key])
           \<and> match rt sv this store' request' = (Inr (Some r), [R2Get key])
           \<and> status r = status resp \<and> statusText r = statusText resp"
proof -
  from put_stores [OF assms(1,3,4), of this store] obtain object where
    put: "put rt sv this store request resp
             = (Inr (object \<lparr> r2_body := None \<rparr>), store(key \<mapsto> object), [R2Put key])"
    and code: "custom_field object ''statusCode'' = Some (Number_toString (Num (int (status resp))))"
    and phrase: "custom_field object ''statusText'' = Some (statusText resp)"
    by blast
  from assms(1) have "key \<noteq> []"
    by (auto simp: or_undefined_def truthy_def split: if_splits option.splits)
  with assms(2) have key': "or_undefined (getKey (Some request')) = Some key"
    by (simp add: or_undefined_def truthy_def)
  have stored: "(store(key \<mapsto> object)) key = Some object"
    by simp
  have st: "ToUint16 (stored_status object) = status resp"
    using code assms(7) by (rule stored_status_put)
  have ph: "stored_statusText object = statusText resp"
    using phrase by (rule stored_statusText_put)
  let ?H = "(parseHTTPMetadata rt (httpMetadata object))
                (''etag'' \<mapsto> httpEtag object,
                 ''content-length'' \<mapsto> Number_toString (Num (int (r2_size object))),
                 ''last-modified'' \<mapsto> toUTCString rt (uploaded object),
                 ''cdn-cache-control'' \<mapsto> ''public, max-age=31536000'')"
  have "\<exists>r. new_Response (r2_body object) ?H (stored_status object) (stored_statusText object) = Inr r"
    unfolding new_Response_returns st ph using assms(6-9) by simp
  then obtain r where
    r: "new_Response (r2_body object) ?H (stored_status object) (stored_statusText object) = Inr r"
    by blast
  have "match rt sv this (store(key \<mapsto> object)) request' = (Inr (Some r), [R2Get key])"
    unfolding match_hit [of request' key "store(key \<mapsto> object)" object rt sv this, OF key' stored]
    by (simp add: assms(5) r)
  moreover have "status r = status resp" and "statusText r = statusText resp"
    using new_Response_fields(3,4) [OF r] st ph by simp_all
  ultimately show ?thesis
    using put by blast
qed

theorem match_headers_witness:
  "or_undefined (getKey (Some (StringInput ''/blog/post-1''))) = Some ''/blog/post-1''
   \<and> [''/blog/post-1'' \<mapsto> demo_object] ''/blog/post-1'' = Some demo_object
   \<and> list_all header_value (stored_header_texts demo_runtime demo_object)
   \<and> (\<exists>r. match demo_runtime demo_services demo_cache [''/blog/post-1'' \<mapsto> demo_object]
             (StringInput ''/blog/post-1'') = (Inr (Some r), [R2Get ''/blog/post-1''])
          \<and> resp_headers r ''content-type'' = Some ''text/html''
          \<and> resp_headers r ''etag'' = Some (CHR 0x22 # ''abc'' @ [CHR 0x22])
          \<and> resp_headers r ''content-length'' = Some ''5''
          \<and> resp_headers r ''last-modified'' = Some ''Thu, 01 Jan 1970 00:00:00 GMT''
          \<and> resp_headers r ''cdn-cache-control'' = Some ''public, max-age=31536000'')"
proof -
  let ?store = "[''/blog/post-1'' \<mapsto> demo_object]"
  let ?request = "StringInput ''/blog/post-1''"
  have k: "or_undefined (getKey (Some ?request)) = Some ''/blog/post-1''"
    by (simp add: or_undefined_def truthy_def)
  have o: "?store ''/blog/post-1'' = Some demo_object"
    by simp
  have v: "list_all header_value (stored_header_texts demo_runtime demo_object)"
    by (simp add: stored_header_texts_def metadata_texts_def demo_object_def serialize_fields
        or_undefined_def truthy_def List.map_filter_def demo_runtime_def header_value_def
        http_white_space_def)
  note c7 = match_headers [of ?request "''/blog/post-1''" ?store demo_object demo_runtime
      demo_services demo_cache, OF k o v]
  have "r2_get_fault demo_services ''/blog/post-1'' = None
        \<and> 200 \<le> ToUint16 (stored_status demo_object) \<and> ToUint16 (stored_status demo_object) \<le> 599
        \<and> list_all reason_phrase_char (stored_statusText demo_object)
        \<and> (r2_body demo_object \<noteq> None \<longrightarrow> \<not> null_body_status (ToUint16 (stored_status demo_object)))"
    by (simp add: demo_services_def demo_object_def stored_status_def stored_statusText_def
        custom_field_def or_undefined_def ToUint16_def null_body_status_def)
  with c7 obtain r where
    r: "match demo_runtime demo_services demo_cache ?store ?request
          = (Inr (Some r), [R2Get ''/blog/post-1''])"
    by blast
  then have "fst (match demo_runtime demo_services demo_cache ?store ?request) = Inr (Some r)"
    by simp
  with c7 have h: "resp_headers r =
               (parseHTTPMetadata demo_runtime (httpMetadata demo_object))
                 (''etag'' \<mapsto> httpEtag demo_object,
                  ''content-length'' \<mapsto> Number_toString (Num (int (r2_size demo_object))),
                  ''last-modified'' \<mapsto> toUTCString demo_runtime (uploaded demo_object),
                  ''cdn-cache-control'' \<mapsto> ''public, max-age=31536000'')"
    by blast
  have five: "Number_toString (Num 5) = ''5''"
    by (simp add: Number_toString_def nat_digits_base digit_chars_def)
  have "resp_headers r ''content-type'' = Some ''text/html''"
    and "resp_headers r ''etag'' = Some (CHR 0x22 # ''abc'' @ [CHR 0x22])"
    and "resp_headers r ''content-length'' = Some ''5''"
    and "resp_headers r ''last-modified'' = Some ''Thu, 01 Jan 1970 00:00:00 GMT''"
    and "resp_headers r ''cdn-cache-control'' = Some ''public, max-age=31536000''"
    unfolding h
    by (simp_all add: demo_object_def parse_serialize_apply codec_fields_def or_undefined_def
        truthy_def five demo_runtime_def)
  with k o v r show ?thesis
    by blast
qed

theorem status_fidelity_witness:
  "or_undefined (getKey (Some (RequestObject
       \<lparr> href = ''https://example.com/missing'', pathname = ''/missing'' \<rparr>))) = Some ''/missing''
   \<and> getKey (Some (StringInput ''/missing'')) = Some ''/missing''
   \<and> status demo_response = 404 \<and> statusText demo_response = ''Not Found''
   \<and> (\<exists>d store' r.
         put demo_runtime demo_services demo_cache Map.empty
           (RequestObject \<lparr> href = ''https://example.com/missing'', pathname = ''/missing'' \<rparr>)
           demo_response
           = (Inr d, store', [R2Put ''/missing''])
         \<and> match demo_runtime demo_services demo_cache store' (StringInput ''/missing'')
           = (Inr (Some r), [R2Get ''/missing''])
         \<and> status r = 404 \<and> statusText r = ''Not Found'')"
proof -
  let ?request = "RequestObject \<lparr> href = ''https://example.com/missing'', pathname = ''/missing'' \<rparr>"
  have k: "or_undefined (getKey (Some ?request)) = Some ''/missing''"
    by (simp add: or_undefined_def truthy_def)
  have k': "getKey (Some (StringInput ''/missing'')) = Some ''/missing''"
    by simp
  have s: "status demo_response = 404" and t: "statusText demo_response = ''Not Found''"
    by (simp_all add: demo_response_def)
  have x: "cacheExpiry (serializeHTTPMetadata demo_runtime (resp_headers demo_response))
             \<noteq> Some InvalidDate"
    by (simp add: serialize_fields demo_response_def or_undefined_def truthy_def)
  have a: "r2_put_answer demo_services ''/missing'' (arrayBuffer demo_response)
             = Inr (''abc'', TimeValue 0)"
    by (simp add: demo_services_def)
  have g: "r2_get_fault demo_services ''/missing'' = None"
    by (simp add: demo_services_def)
  have lo: "200 \<le> status demo_response" and hi: "status demo_response \<le> 599"
    and nb: "\<not> null_body_status (status demo_response)"
    by (simp_all add: s null_body_status_def)
  have rp: "list_all reason_phrase_char (statusText demo_response)"
    by (simp add: t reason_phrase_char_def)
  from status_fidelity [OF k k' x a g lo hi nb rp, of demo_cache Map.empty]
  show ?thesis
    unfolding s t using k k' by blast
qed

end
